theory Spec2Isabelle
  imports Main "HOL-Library.Word" "HOL-Library.Sublist"
begin

section \<open>JavaScript strings and values\<close>

text \<open>
  A JavaScript string is a sequence of UTF-16 code units, and \<open>length\<close>, \<open>indexOf\<close>,
  \<open>split\<close> and the regular expressions of the program all work on code units.
  ASCII literals of the source are written \<open>js ''...''\<close>.
\<close>

type_synonym jsstring = "16 word list"

definition js :: "string \<Rightarrow> jsstring" where
  "js s = map (\<lambda>c. of_nat (of_char c)) s"

text \<open>
  The whitespace of \<open>String.prototype.trim\<close>, of \<open>parseInt\<close> and of the regular
  expression class \<open>\s\<close>: WhiteSpace and LineTerminator of ECMAScript.
\<close>

definition is_ws :: "16 word \<Rightarrow> bool" where
  "is_ws c = (c = 9 \<or> c = 10 \<or> c = 11 \<or> c = 12 \<or> c = 13 \<or> c = 32 \<or> c = 160
     \<or> c = 0x1680 \<or> (0x2000 \<le> c \<and> c \<le> 0x200A) \<or> c = 0x2028 \<or> c = 0x2029
     \<or> c = 0x202F \<or> c = 0x205F \<or> c = 0x3000 \<or> c = 0xFEFF)"

definition is_digit :: "16 word \<Rightarrow> bool" where
  "is_digit c = (48 \<le> c \<and> c \<le> 57)"

definition trim :: "jsstring \<Rightarrow> jsstring" where
  "trim s = rev (dropWhile is_ws (rev (dropWhile is_ws s)))"

text \<open>
  Values of type \<open>any\<close>: what \<open>JSON.parse\<close>, \<open>response.json()\<close> and the store hand
  to the program, and the fields of the objects built from them. \<open>Undefined\<close> is also
  the value of a property that an object does not have. Numbers are the integers.
\<close>

datatype jsval =
    Undefined
  | Null
  | JBool bool
  | JNum int
  | JStr jsstring
  | JArr "jsval list"
  | JObj "(jsstring \<times> jsval) list"

fun truthy :: "jsval \<Rightarrow> bool" where
  "truthy Undefined = False"
| "truthy Null = False"
| "truthy (JBool b) = b"
| "truthy (JNum n) = (n \<noteq> 0)"
| "truthy (JStr s) = (s \<noteq> [])"
| "truthy (JArr xs) = True"
| "truthy (JObj kvs) = True"

text \<open>Exceptions: the values a \<open>catch\<close> clause of the program can receive.\<close>

datatype exn = TypeError | SyntaxError | Failure

definition try_catch :: "exn + 'a \<Rightarrow> (exn \<Rightarrow> exn + 'a) \<Rightarrow> exn + 'a" where
  "try_catch body handler = (case body of Inl e \<Rightarrow> handler e | Inr v \<Rightarrow> Inr v)"

section \<open>Number.parseInt\<close>

text \<open>
  \<open>parseInt(s)\<close> without a radix: leading whitespace is skipped, a sign is read, a
  prefix \<open>0x\<close> or \<open>0X\<close> selects radix 16, and the longest prefix of digits is the
  value; with no digit the result is \<open>NaN\<close>, here \<open>None\<close>. The value is the
  exact integer: the rounding of a number beyond \<open>2^53\<close> is outside the model.
\<close>

definition dec_val :: "16 word \<Rightarrow> nat option" where
  "dec_val c = (if 48 \<le> c \<and> c \<le> 57 then Some (unat c - 48) else None)"

definition hex_val :: "16 word \<Rightarrow> nat option" where
  "hex_val c =
     (if 48 \<le> c \<and> c \<le> 57 then Some (unat c - 48)
      else if 97 \<le> c \<and> c \<le> 102 then Some (unat c - 87)
      else if 65 \<le> c \<and> c \<le> 70 then Some (unat c - 55)
      else None)"

definition digits_value :: "nat \<Rightarrow> (16 word \<Rightarrow> nat option) \<Rightarrow> jsstring \<Rightarrow> int option" where
  "digits_value radix val s =
     (let z = takeWhile (\<lambda>c. val c \<noteq> None) s
      in if z = [] then None
         else Some (int (foldl (\<lambda>acc c. acc * radix + the (val c)) 0 z)))"

definition parseInt :: "jsstring \<Rightarrow> int option" where
  "parseInt inputString =
     (let s = dropWhile is_ws inputString;
          neg = (s \<noteq> [] \<and> hd s = 45);
          s1 = (if s \<noteq> [] \<and> (hd s = 43 \<or> hd s = 45) then tl s else s);
          hex = (length s1 \<ge> 2 \<and> hd s1 = 48 \<and> (s1 ! 1 = 120 \<or> s1 ! 1 = 88));
          r = (if hex then digits_value 16 hex_val (drop 2 s1) else digits_value 10 dec_val s1)
      in case r of None \<Rightarrow> None | Some n \<Rightarrow> Some (if neg then - n else n))"

section \<open>Word records\<close>

text \<open>
  \<open>GeneratedWord\<close> of \<open>lib/huggingface.ts\<close> and \<open>WordData\<close> of \<open>lib/supabase.ts\<close>, which
  has the same six fields and five more. The fields hold JavaScript values: the
  records built from an AI response carry whatever \<open>JSON.parse\<close> produced.
\<close>

record generatedWord =
  word :: jsval
  phonetic :: jsval
  definition_w :: jsval
  translation :: jsval
  examples :: jsval
  level :: jsval

record wordData = generatedWord +
  id_w :: jsval
  date :: jsval
  source :: jsval
  created_at :: jsval
  updated_at :: jsval

text \<open>The object \<open>{}\<close>: every property reads as \<open>undefined\<close>.\<close>

definition empty_object :: wordData where
  "empty_object = \<lparr> word = Undefined, phonetic = Undefined, definition_w = Undefined,
     translation = Undefined, examples = Undefined, level = Undefined,
     id_w = Undefined, date = Undefined, source = Undefined,
     created_at = Undefined, updated_at = Undefined \<rparr>"

section \<open>The deterministic selectors\<close>

text \<open>The route's test \<open>/^\d{4}-\d{2}-\d{2}$/.test(date)\<close>.\<close>

fun valid_date :: "jsstring \<Rightarrow> bool" where
  "valid_date [y1, y2, y3, y4, h1, m1, m2, h2, d1, d2] =
     (is_digit y1 \<and> is_digit y2 \<and> is_digit y3 \<and> is_digit y4 \<and> h1 = 45
      \<and> is_digit m1 \<and> is_digit m2 \<and> h2 = 45 \<and> is_digit d1 \<and> is_digit d2)"
| "valid_date _ = False"

text \<open>\<open>s.split(sep)\<close> for a separator of one code unit.\<close>

fun split_on :: "16 word \<Rightarrow> jsstring \<Rightarrow> jsstring list" where
  "split_on sep [] = [[]]"
| "split_on sep (c # cs) =
     (if c = sep then [] # split_on sep cs
      else (case split_on sep cs of [] \<Rightarrow> [[c]] | p # ps \<Rightarrow> (c # p) # ps))"

text \<open>
  \<open>date.split("-").reduce((acc, part) => acc + Number.parseInt(part), 0)\<close>;
  a sum with \<open>NaN\<close> is \<open>NaN\<close>.
\<close>

definition dateHash :: "jsstring \<Rightarrow> int option" where
  "dateHash date_s =
     foldl (\<lambda>acc part. case (acc, parseInt part) of (Some a, Some n) \<Rightarrow> Some (a + n) | _ \<Rightarrow> None)
       (Some 0) (split_on 45 date_s)"

text \<open>
  \<open>xs[h % xs.length]\<close>: the remainder has the sign of \<open>h\<close>, it is \<open>NaN\<close> when \<open>h\<close>
  is \<open>NaN\<close> or the array is empty, and an index that is no element of the array reads
  \<open>undefined\<close>, here \<open>None\<close>.
\<close>

definition js_rem :: "int option \<Rightarrow> nat \<Rightarrow> int option" where
  "js_rem h n =
     (case h of None \<Rightarrow> None
      | Some a \<Rightarrow> if n = 0 then None else Some (sgn a * (\<bar>a\<bar> mod int n)))"

definition js_index :: "'a list \<Rightarrow> int option \<Rightarrow> 'a option" where
  "js_index xs i =
     (case i of None \<Rightarrow> None
      | Some k \<Rightarrow> if 0 \<le> k \<and> k < int (length xs) then Some (xs ! nat k) else None)"

text \<open>
  \<open>FallbackWordsSystem.getWordByDate\<close>: \<open>{ ...selectedWord, date }\<close>. Spreading
  \<open>undefined\<close> adds no property, so the method never throws.
\<close>

definition FallbackWordsSystem_getWordByDate :: "wordData list \<Rightarrow> jsstring \<Rightarrow> wordData" where
  "FallbackWordsSystem_getWordByDate catalog date_s =
     (let selectedWord = js_index catalog (js_rem (dateHash date_s) (length catalog))
      in case selectedWord of
           None \<Rightarrow> empty_object \<lparr> date := JStr date_s \<rparr>
         | Some w \<Rightarrow> w \<lparr> date := JStr date_s \<rparr>)"

text \<open>
  \<open>SmartWordBank.getWordForDate\<close> returns the selected entry itself; its log line reads
  \<open>selectedWord.word\<close>, which throws a TypeError when the entry is \<open>undefined\<close>.
\<close>

definition SmartWordBank_getWordForDate :: "generatedWord list \<Rightarrow> jsstring \<Rightarrow> exn + generatedWord" where
  "SmartWordBank_getWordForDate catalog date_s =
     (let selectedWord = js_index catalog (js_rem (dateHash date_s) (length catalog))
      in case selectedWord of None \<Rightarrow> Inl TypeError | Some w \<Rightarrow> Inr w)"

text \<open>
  The three numeric components of a date, as the specification names them: the digits
  before the first hyphen, between the hyphens, and after the second.
\<close>

definition decimal :: "jsstring \<Rightarrow> nat" where
  "decimal s = foldl (\<lambda>acc c. acc * 10 + (unat c - 48)) 0 s"

definition date_year :: "jsstring \<Rightarrow> nat" where
  "date_year date_s = decimal (take 4 date_s)"

definition date_month :: "jsstring \<Rightarrow> nat" where
  "date_month date_s = decimal (take 2 (drop 5 date_s))"

definition date_day :: "jsstring \<Rightarrow> nat" where
  "date_day date_s = decimal (take 2 (drop 8 date_s))"

definition component_sum :: "jsstring \<Rightarrow> nat" where
  "component_sum date_s = date_year date_s + date_month date_s + date_day date_s"

section \<open>The AI response parser\<close>

definition starts_with :: "jsstring \<Rightarrow> jsstring \<Rightarrow> bool" where
  "starts_with lit s = (take (length lit) s = lit)"

text \<open>
  \<open>s.replace(/lit\s*/g, "")\<close> for a literal \<open>lit\<close>: scanning from the left, every
  occurrence of the literal is removed together with the whitespace that follows it,
  and the scan goes on behind the match.
\<close>

function regex_remove :: "jsstring \<Rightarrow> jsstring \<Rightarrow> jsstring" where
  "regex_remove lit s =
     (if s = [] then []
      else if lit \<noteq> [] \<and> starts_with lit s
        then regex_remove lit (dropWhile is_ws (drop (length lit) s))
      else hd s # regex_remove lit (tl s))"
  by pat_completeness auto
termination
proof (relation "measure (\<lambda>(lit, s). length s)")
  fix lit s :: jsstring
  assume "s \<noteq> []" "lit \<noteq> [] \<and> starts_with lit s"
  then have "length (drop (length lit) s) < length s"
    by (cases lit) auto
  moreover have "length (dropWhile is_ws (drop (length lit) s)) \<le> length (drop (length lit) s)"
    by (rule length_dropWhile_le)
  ultimately show "((lit, dropWhile is_ws (drop (length lit) s)), (lit, s)) \<in> measure (\<lambda>(lit, s). length s)"
    by simp
qed auto

text \<open>\<open>indexOf\<close> and \<open>lastIndexOf\<close> of one code unit (\<open>-1\<close> when absent), \<open>substring\<close>.\<close>

definition indexOf :: "jsstring \<Rightarrow> 16 word \<Rightarrow> int" where
  "indexOf s c = (if c \<in> set s then int (length (takeWhile (\<lambda>x. x \<noteq> c) s)) else - 1)"

definition lastIndexOf :: "jsstring \<Rightarrow> 16 word \<Rightarrow> int" where
  "lastIndexOf s c =
     (if c \<in> set s then int (length s) - 1 - int (length (takeWhile (\<lambda>x. x \<noteq> c) (rev s))) else - 1)"

definition substring :: "jsstring \<Rightarrow> int \<Rightarrow> int \<Rightarrow> jsstring" where
  "substring s i j =
     (let a = min (max i 0) (int (length s)); b = min (max j 0) (int (length s))
      in take (nat (max a b) - nat (min a b)) (drop (nat (min a b)) s))"

text \<open>
  The text that \<open>parseJSONResponse\<close> hands to \<open>JSON.parse\<close>: trimmed, the code fences
  removed, and cut down to the span from the first \<open>{\<close> to the last \<open>}\<close> when there
  is one.
\<close>

definition extractJSON :: "jsstring \<Rightarrow> jsstring" where
  "extractJSON text_s =
     (let cleanText = trim text_s;
          cleanText = regex_remove (js ''```'') (regex_remove (js ''```json'') cleanText);
          jsonStart = indexOf cleanText 123;
          jsonEnd = lastIndexOf cleanText 125
      in if jsonStart \<noteq> - 1 \<and> jsonEnd \<noteq> - 1 \<and> jsonEnd > jsonStart
         then substring cleanText jsonStart (jsonEnd + 1)
         else cleanText)"

text \<open>
  Reading a property: \<open>undefined\<close> when the value is no object or has no such
  property. (Reading a property of \<open>null\<close> or \<open>undefined\<close> throws; the callers test
  for it.)
\<close>

definition get_prop :: "jsval \<Rightarrow> jsstring \<Rightarrow> jsval" where
  "get_prop v k =
     (case v of
        JObj kvs \<Rightarrow> (case map_of kvs k of None \<Rightarrow> Undefined | Some x \<Rightarrow> x)
      | _ \<Rightarrow> Undefined)"

definition nullish :: "jsval \<Rightarrow> bool" where
  "nullish v = (v = Undefined \<or> v = Null)"

text \<open>The string conversion of a template literal.\<close>

fun show_nat :: "nat \<Rightarrow> jsstring" where
  "show_nat n = (if n < 10 then [of_nat (48 + n)] else show_nat (n div 10) @ [of_nat (48 + n mod 10)])"

definition show_int :: "int \<Rightarrow> jsstring" where
  "show_int i = (if i < 0 then 45 # show_nat (nat (- i)) else show_nat (nat i))"

fun join_comma :: "jsstring list \<Rightarrow> jsstring" where
  "join_comma [] = []"
| "join_comma [s] = s"
| "join_comma (s # t # ss) = s @ 44 # join_comma (t # ss)"

fun ToString :: "jsval \<Rightarrow> jsstring" where
  "ToString Undefined = js ''undefined''"
| "ToString Null = js ''null''"
| "ToString (JBool b) = (if b then js ''true'' else js ''false'')"
| "ToString (JNum n) = show_int n"
| "ToString (JStr s) = s"
| "ToString (JArr xs) = join_comma (map (\<lambda>x. if nullish x then [] else ToString x) xs)"
| "ToString (JObj kvs) = js ''[object Object]''"

text \<open>
  \<open>HuggingFaceWordGenerator.parseJSONResponse\<close>. The body of its \<open>try\<close>:
  \<open>text.trim()\<close> throws on a value that is no string, \<open>JSON.parse\<close> throws a
  SyntaxError (\<open>None\<close> of the parameter \<open>JSON_parse\<close>), and \<open>parsed.word\<close> throws on
  \<open>null\<close>.
\<close>

definition parseJSONResponse_try :: "(jsstring \<Rightarrow> jsval option) \<Rightarrow> jsval \<Rightarrow> exn + generatedWord option" where
  "parseJSONResponse_try JSON_parse text_v =
     (case text_v of
        JStr text_s \<Rightarrow>
          (case JSON_parse (extractJSON text_s) of
             None \<Rightarrow> Inl SyntaxError
           | Some parsed \<Rightarrow>
               if nullish parsed then Inl TypeError
               else if truthy (get_prop parsed (js ''word'')) \<and>
                       truthy (get_prop parsed (js ''definition'')) \<and>
                       truthy (get_prop parsed (js ''translation'')) \<and>
                       truthy (get_prop parsed (js ''examples'')) \<and>
                       (case get_prop parsed (js ''examples'') of JArr xs \<Rightarrow> length xs \<ge> 2 | _ \<Rightarrow> False)
                 then Inr (Some \<lparr>
                   word = get_prop parsed (js ''word''),
                   phonetic = (if truthy (get_prop parsed (js ''phonetic'')) then get_prop parsed (js ''phonetic'')
                               else JStr (47 # ToString (get_prop parsed (js ''word'')) @ [47])),
                   definition_w = get_prop parsed (js ''definition''),
                   translation = get_prop parsed (js ''translation''),
                   examples = (case get_prop parsed (js ''examples'') of JArr xs \<Rightarrow> JArr (take 3 xs) | v \<Rightarrow> v),
                   level = (if truthy (get_prop parsed (js ''level'')) then get_prop parsed (js ''level'')
                            else JStr (js ''B2'')) \<rparr>)
                 else Inr None)
      | _ \<Rightarrow> Inl TypeError)"

definition parseJSONResponse :: "(jsstring \<Rightarrow> jsval option) \<Rightarrow> jsval \<Rightarrow> generatedWord option" where
  "parseJSONResponse JSON_parse text_v =
     (case parseJSONResponse_try JSON_parse text_v of Inl error \<Rightarrow> None | Inr r \<Rightarrow> r)"

section \<open>The environment\<close>

text \<open>
  What the program reaches over the network, and the built-ins of the runtime that
  are taken as given. \<open>supabase\<close> and \<open>hf\<close> say whether the two module-level clients
  were constructed (they are \<open>null\<close> without their environment variables). For each
  kind of store request \<open>db_fault\<close> says whether the store answers it, answers with an
  error code, or the awaited call rejects.
\<close>

datatype dbop = op_count | op_select | op_upsert | op_recent | op_search

datatype fault = NoFault | PgError jsstring | Throws

datatype 'a pg = Pg (pg_data: "'a option") (pg_error: "jsstring option")

datatype fetch_result = FetchFails | FetchResponse bool "jsval option"

datatype chat_result = ChatFails | ChatCompletion jsval

record env =
  supabase :: bool
  hf :: bool
  db_fault :: "dbop \<Rightarrow> fault"
  store_meta :: "wordData \<Rightarrow> jsval \<times> jsval \<times> jsval"
  recent_rows :: "int option \<Rightarrow> wordData list option"
  search_rows :: "jsstring \<Rightarrow> wordData list option"
  random_word_api :: fetch_result
  chatCompletion :: "jsstring \<Rightarrow> chat_result"
  inference_api :: fetch_result
  JSON_parse :: "jsstring \<Rightarrow> jsval option"
  toLowerCase :: "jsstring \<Rightarrow> jsstring"
  fallbackWords :: "wordData list"
  words :: "generatedWord list"

text \<open>
  \<open>FetchResponse ok body\<close>: the response of \<open>fetch\<close> with its \<open>ok\<close> flag and what
  \<open>response.json()\<close> gives (\<open>None\<close> when it rejects). \<open>store_meta\<close> is the identifier
  and the two timestamps that the store assigns to a row. \<open>recent_rows\<close> and
  \<open>search_rows\<close> are the \<open>data\<close> of the store's answer to the two list queries.
\<close>

datatype event =
    ev_count
  | ev_select jsstring
  | ev_upsert wordData
  | ev_recent "int option"
  | ev_search jsstring
  | ev_seed
  | ev_chat jsstring
  | ev_inference

text \<open>The table \<open>daily_words\<close>, unique on \<open>date\<close>, and the requests sent so far.\<close>

record state =
  daily_words :: "jsval \<Rightarrow> wordData option"
  calls :: "event list"

definition log_call :: "event \<Rightarrow> state \<Rightarrow> state" where
  "log_call e st = st \<lparr> calls := calls st @ [e] \<rparr>"

definition await_store :: "env \<Rightarrow> dbop \<Rightarrow> 'a pg \<Rightarrow> exn + 'a pg" where
  "await_store env op answer =
     (case db_fault env op of
        NoFault \<Rightarrow> Inr answer
      | PgError code \<Rightarrow> Inr (Pg None (Some code))
      | Throws \<Rightarrow> Inl Failure)"

section \<open>WordsDatabase\<close>

definition WordsDatabase_checkConnection :: "env \<Rightarrow> state \<Rightarrow> (exn + bool) \<times> state" where
  "WordsDatabase_checkConnection env st =
     (if \<not> supabase env then (Inr False, st)
      else (try_catch
              (case await_store env op_count (Pg (Some ()) None) of
                 Inl e \<Rightarrow> Inl e
               | Inr r \<Rightarrow> if pg_error r \<noteq> None then Inr False else Inr True)
              (\<lambda>error. Inr False),
            log_call ev_count st))"

text \<open>\<open>.eq("date", date).single()\<close> answers with the error PGRST116 when no row matches.\<close>

definition WordsDatabase_getWordByDate :: "env \<Rightarrow> jsstring \<Rightarrow> state \<Rightarrow> (exn + wordData option) \<times> state" where
  "WordsDatabase_getWordByDate env date_s st =
     (if \<not> supabase env then (Inr None, st)
      else (try_catch
              (case await_store env op_select
                      (case daily_words st (JStr date_s) of
                         None \<Rightarrow> Pg None (Some (js ''PGRST116''))
                       | Some row \<Rightarrow> Pg (Some row) None) of
                 Inl e \<Rightarrow> Inl e
               | Inr r \<Rightarrow>
                   (case pg_error r of
                      Some code \<Rightarrow>
                        if code = js ''PGRST116'' then Inr None
                        else if code = js ''42P01'' then Inr None
                        else Inr None
                    | None \<Rightarrow> Inr (pg_data r)))
              (\<lambda>error. Inr None),
            log_call (ev_select date_s) st))"

definition stored_row :: "env \<Rightarrow> wordData \<Rightarrow> wordData" where
  "stored_row env w =
     (case store_meta env w of
        (i, c, u) \<Rightarrow> w \<lparr> id_w := i, created_at := c, updated_at := u \<rparr>)"

text \<open>
  \<open>saveWord\<close>: an upsert on \<open>date\<close> that answers with the stored row. Its log line
  reads \<open>data.word\<close>.
\<close>

definition WordsDatabase_saveWord :: "env \<Rightarrow> wordData \<Rightarrow> state \<Rightarrow> (exn + wordData option) \<times> state" where
  "WordsDatabase_saveWord env wordData st =
     (if \<not> supabase env then (Inr None, st)
      else
        let st1 = log_call (ev_upsert wordData) st;
            row = stored_row env wordData;
            st2 = (if db_fault env op_upsert = NoFault
                   then st1 \<lparr> daily_words := (daily_words st1)(date wordData \<mapsto> row) \<rparr>
                   else st1)
        in (try_catch
              (case await_store env op_upsert (Pg (Some row) None) of
                 Inl e \<Rightarrow> Inl e
               | Inr r \<Rightarrow>
                   if pg_error r \<noteq> None then Inr None
                   else (case pg_data r of None \<Rightarrow> Inl TypeError | Some data \<Rightarrow> Inr (Some data)))
              (\<lambda>error. Inr None),
            st2))"

definition WordsDatabase_getRecentWords :: "env \<Rightarrow> int option \<Rightarrow> state \<Rightarrow> (exn + wordData list) \<times> state" where
  "WordsDatabase_getRecentWords env limit st =
     (if \<not> supabase env then (Inr [], st)
      else (try_catch
              (case await_store env op_recent (Pg (recent_rows env limit) None) of
                 Inl e \<Rightarrow> Inl e
               | Inr r \<Rightarrow>
                   if pg_error r \<noteq> None then Inr []
                   else Inr (case pg_data r of None \<Rightarrow> [] | Some rows \<Rightarrow> rows))
              (\<lambda>error. Inr []),
            log_call (ev_recent limit) st))"

definition WordsDatabase_searchWords :: "env \<Rightarrow> jsstring \<Rightarrow> state \<Rightarrow> (exn + wordData list) \<times> state" where
  "WordsDatabase_searchWords env query st =
     (if \<not> supabase env then (Inr [], st)
      else (try_catch
              (case await_store env op_search (Pg (search_rows env query) None) of
                 Inl e \<Rightarrow> Inl e
               | Inr r \<Rightarrow>
                   if pg_error r \<noteq> None then Inr []
                   else Inr (case pg_data r of None \<Rightarrow> [] | Some rows \<Rightarrow> rows))
              (\<lambda>error. Inr []),
            log_call (ev_search query) st))"

section \<open>FallbackWordsSystem: recent words and search\<close>

text \<open>\<open>Math.min\<close> is \<open>NaN\<close> when an argument is; \<open>xs.slice(0, e)\<close> counts a negative
  \<open>e\<close> from the end and reads \<open>NaN\<close> as 0.\<close>

definition Math_min :: "int option \<Rightarrow> int option \<Rightarrow> int option" where
  "Math_min a b = (case (a, b) of (Some x, Some y) \<Rightarrow> Some (min x y) | _ \<Rightarrow> None)"

definition slice0 :: "'a list \<Rightarrow> int option \<Rightarrow> 'a list" where
  "slice0 xs e =
     (case e of
        None \<Rightarrow> []
      | Some k \<Rightarrow> if k < 0 then take (nat (int (length xs) + k)) xs else take (nat k) xs)"

definition FallbackWordsSystem_getRecentWords :: "wordData list \<Rightarrow> int option \<Rightarrow> wordData list" where
  "FallbackWordsSystem_getRecentWords catalog days =
     slice0 catalog (Math_min days (Some (int (length catalog))))"

fun includes_str :: "jsstring \<Rightarrow> jsstring \<Rightarrow> bool" where
  "includes_str [] q = (q = [])"
| "includes_str (c # cs) q = (starts_with q (c # cs) \<or> includes_str cs q)"

text \<open>\<open>field.toLowerCase().includes(lowerQuery)\<close>; a field that is no string has no
  method \<open>toLowerCase\<close>, and the call throws.\<close>

definition field_includes :: "(jsstring \<Rightarrow> jsstring) \<Rightarrow> jsval \<Rightarrow> jsstring \<Rightarrow> exn + bool" where
  "field_includes lower v lowerQuery =
     (case v of JStr s \<Rightarrow> Inr (includes_str (lower s) lowerQuery) | _ \<Rightarrow> Inl TypeError)"

definition word_matches :: "(jsstring \<Rightarrow> jsstring) \<Rightarrow> jsstring \<Rightarrow> wordData \<Rightarrow> exn + bool" where
  "word_matches lower lowerQuery w =
     (case field_includes lower (word w) lowerQuery of
        Inl e \<Rightarrow> Inl e
      | Inr True \<Rightarrow> Inr True
      | Inr False \<Rightarrow>
          (case field_includes lower (definition_w w) lowerQuery of
             Inl e \<Rightarrow> Inl e
           | Inr True \<Rightarrow> Inr True
           | Inr False \<Rightarrow> field_includes lower (translation w) lowerQuery))"

fun filter_exn :: "('a \<Rightarrow> exn + bool) \<Rightarrow> 'a list \<Rightarrow> exn + 'a list" where
  "filter_exn p [] = Inr []"
| "filter_exn p (x # xs) =
     (case p x of
        Inl e \<Rightarrow> Inl e
      | Inr b \<Rightarrow> (case filter_exn p xs of Inl e \<Rightarrow> Inl e | Inr ys \<Rightarrow> Inr (if b then x # ys else ys)))"

definition FallbackWordsSystem_searchWords ::
    "(jsstring \<Rightarrow> jsstring) \<Rightarrow> wordData list \<Rightarrow> jsstring \<Rightarrow> exn + wordData list" where
  "FallbackWordsSystem_searchWords lower catalog query =
     (let lowerQuery = lower query in filter_exn (word_matches lower lowerQuery) catalog)"

section \<open>HuggingFaceWordGenerator\<close>

definition HuggingFaceWordGenerator_getRandomWord :: "env \<Rightarrow> state \<Rightarrow> (exn + jsstring option) \<times> state" where
  "HuggingFaceWordGenerator_getRandomWord env st =
     (try_catch
        (case random_word_api env of
           FetchFails \<Rightarrow> Inl Failure
         | FetchResponse ok body \<Rightarrow>
             if \<not> ok then Inr None
             else (case body of
                     None \<Rightarrow> Inl SyntaxError
                   | Some data \<Rightarrow>
                       (case data of
                          JArr (JStr w # rest) \<Rightarrow> Inr (Some (toLowerCase env w))
                        | _ \<Rightarrow> Inr None)))
        (\<lambda>error. Inr None),
      log_call ev_seed st)"

text \<open>\<open>v[0]\<close> for the value of \<open>chatCompletion.choices\<close>.\<close>

definition elem0 :: "jsval \<Rightarrow> jsval" where
  "elem0 v =
     (case v of
        JArr xs \<Rightarrow> (case xs of [] \<Rightarrow> Undefined | x # rest \<Rightarrow> x)
      | JStr s \<Rightarrow> (case s of [] \<Rightarrow> Undefined | c # rest \<Rightarrow> JStr [c])
      | JObj kvs \<Rightarrow> get_prop v (js ''0'')
      | _ \<Rightarrow> Undefined)"

text \<open>
  \<open>generateWord\<close>. The seed word is awaited before the \<open>try\<close>; the prompt is a function
  of the seed word alone, so the inference call is \<open>chatCompletion env randomWord\<close>.
\<close>

definition HuggingFaceWordGenerator_generateWord ::
    "env \<Rightarrow> jsstring \<Rightarrow> state \<Rightarrow> (exn + generatedWord option) \<times> state" where
  "HuggingFaceWordGenerator_generateWord env date_s st =
     (if \<not> hf env then (Inr None, st)
      else
        case HuggingFaceWordGenerator_getRandomWord env st of (r, st1) \<Rightarrow>
        (case r of
           Inl e \<Rightarrow> (Inl e, st1)
         | Inr None \<Rightarrow> (Inr None, st1)
         | Inr (Some randomWord) \<Rightarrow>
             if randomWord = [] then (Inr None, st1)
             else
               (try_catch
                  (case chatCompletion env randomWord of
                     ChatFails \<Rightarrow> Inl Failure
                   | ChatCompletion cc \<Rightarrow>
                       if truthy cc \<and> truthy (get_prop cc (js ''choices'')) \<and>
                          truthy (elem0 (get_prop cc (js ''choices''))) \<and>
                          truthy (get_prop (elem0 (get_prop cc (js ''choices''))) (js ''message''))
                       then
                         let responseContent =
                               get_prop (get_prop (elem0 (get_prop cc (js ''choices''))) (js ''message''))
                                 (js ''content'')
                         in if truthy responseContent
                            then (case parseJSONResponse (JSON_parse env) responseContent of
                                    Some parsed \<Rightarrow> Inr (Some parsed)
                                  | None \<Rightarrow> Inr None)
                            else Inr None
                       else Inr None)
                  (\<lambda>error. Inr None),
                log_call (ev_chat randomWord) st1)))"

definition HuggingFaceWordGenerator_isAvailable :: "env \<Rightarrow> bool" where
  "HuggingFaceWordGenerator_isAvailable env = hf env"

section \<open>The word-for-date route\<close>

datatype response =
    Json_word wordData
  | Json_words "wordData list"
  | Json_error jsstring nat

text \<open>
  \<open>v.length > 3\<close>. A string and an array have their length; of an object the
  property \<open>length\<close> is read, and it counts when it is a number; every other value has
  no length, and \<open>undefined > 3\<close> is false.
\<close>

definition length_gt3 :: "jsval \<Rightarrow> bool" where
  "length_gt3 v =
     (case v of
        JStr s \<Rightarrow> length s > 3
      | JArr xs \<Rightarrow> length xs > 3
      | JObj kvs \<Rightarrow> (case get_prop v (js ''length'') of JNum n \<Rightarrow> n > 3 | _ \<Rightarrow> False)
      | _ \<Rightarrow> False)"

definition with_date_source :: "generatedWord \<Rightarrow> jsstring \<Rightarrow> string \<Rightarrow> wordData" where
  "with_date_source g date_s src =
     \<lparr> word = word g, phonetic = phonetic g, definition_w = definition_w g,
       translation = translation g, examples = examples g, level = level g,
       id_w = Undefined, date = JStr date_s, source = JStr (js src),
       created_at = Undefined, updated_at = Undefined \<rparr>"

text \<open>\<open>generateWordWithSmartBank\<close> of the route that uses the Smart Word Bank.\<close>

definition generateWordWithSmartBank :: "env \<Rightarrow> jsstring \<Rightarrow> state \<Rightarrow> (exn + wordData) \<times> state" where
  "generateWordWithSmartBank env date_s st =
     (let smartBank = (\<lambda>st'.
            (case SmartWordBank_getWordForDate (words env) date_s of
               Inl e \<Rightarrow> (Inl e, st')
             | Inr smartWord \<Rightarrow> (Inr (with_date_source smartWord date_s ''curated''), st')))
      in if HuggingFaceWordGenerator_isAvailable env then
           case HuggingFaceWordGenerator_generateWord env date_s st of (r, st1) \<Rightarrow>
           (case r of
              Inl error \<Rightarrow> smartBank st1
            | Inr None \<Rightarrow> smartBank st1
            | Inr (Some aiWord) \<Rightarrow>
                if truthy (word aiWord) \<and> length_gt3 (word aiWord)
                then (Inr (with_date_source aiWord date_s ''ai''), st1)
                else smartBank st1)
         else smartBank st)"

definition hardcodedWord :: "jsstring \<Rightarrow> string \<Rightarrow> wordData" where
  "hardcodedWord date_s src =
     \<lparr> word = JStr (js ''resilient''),
       phonetic = JStr [47, 114, 618, 712, 122, 618, 108, 105, 601, 110, 116, 47],
       definition_w = JStr (js ''Able to recover quickly from difficult conditions''),
       translation = JStr (js ''resistente, resiliente''),
       examples = JArr [JStr (js ''We need to be resilient in difficult times.''),
                        JStr (js ''The app is resilient and works even offline.''),
                        JStr (js ''Your learning journey requires resilient effort.'')],
       level = JStr (js ''B2''),
       id_w = Undefined, date = JStr date_s, source = JStr (js src),
       created_at = Undefined, updated_at = Undefined \<rparr>"

text \<open>The body of the \<open>try\<close> of \<open>GET\<close>, with its four inner \<open>try\<close> blocks.\<close>

definition GET_try :: "env \<Rightarrow> jsstring \<Rightarrow> state \<Rightarrow> (exn + response) \<times> state" where
  "GET_try env date_s st =
     (if \<not> valid_date date_s
      then (Inr (Json_error (js ''Invalid date format. Use YYYY-MM-DD'') 400), st)
      else
        (case WordsDatabase_checkConnection env st of (c, st1) \<Rightarrow>
          (let isConnected = (case c of Inl error \<Rightarrow> False | Inr b \<Rightarrow> b) in
           if \<not> isConnected then
             (let fallbackWord = FallbackWordsSystem_getWordByDate (fallbackWords env) date_s;
                  wordWithSource = fallbackWord \<lparr> source := JStr (js ''database_unavailable'') \<rparr>
              in (Inr (Json_word wordWithSource), st1))
           else
             (case WordsDatabase_getWordByDate env date_s st1 of (q, st2) \<Rightarrow>
               (let existingWord = (case q of Inl error \<Rightarrow> None | Inr x \<Rightarrow> x) in
                (case existingWord of
                   Some row \<Rightarrow> (Inr (Json_word row), st2)
                 | None \<Rightarrow>
                     (case generateWordWithSmartBank env date_s st2 of (g, st3) \<Rightarrow>
                       (let newWordData =
                              (case g of
                                 Inr w \<Rightarrow> w
                               | Inl error \<Rightarrow>
                                   (FallbackWordsSystem_getWordByDate (fallbackWords env) date_s)
                                     \<lparr> source := JStr (js ''generation_error'') \<rparr>) in
                        (case WordsDatabase_saveWord env newWordData st3 of (s, st4) \<Rightarrow>
                          (let savedWord = (case s of Inl error \<Rightarrow> None | Inr x \<Rightarrow> x);
                               wordToReturn = (case savedWord of Some r \<Rightarrow> r | None \<Rightarrow> newWordData)
                           in (Inr (Json_word wordToReturn), st4)))))))))))"

text \<open>The \<open>catch\<close> of \<open>GET\<close>: the emergency word, and the hardcoded word behind it.\<close>

definition GET_catch :: "env \<Rightarrow> jsstring \<Rightarrow> exn \<Rightarrow> exn + response" where
  "GET_catch env date_s error =
     try_catch
       (case SmartWordBank_getWordForDate (words env) date_s of
          Inl e \<Rightarrow> Inl e
        | Inr emergencyWord \<Rightarrow> Inr (Json_word (with_date_source emergencyWord date_s ''emergency'')))
       (\<lambda>fallbackError. Inr (Json_word (hardcodedWord date_s ''hardcoded'')))"

definition GET :: "env \<Rightarrow> jsstring \<Rightarrow> state \<Rightarrow> (exn + response) \<times> state" where
  "GET env date_s st =
     (case GET_try env date_s st of (r, st') \<Rightarrow> (try_catch r (GET_catch env date_s), st'))"

section \<open>The first version of the route\<close>

text \<open>
  \<open>generateWordWithHuggingFace\<close>: with an API key one request to the inference
  endpoint; on every path the result is the fallback word tagged \<open>ai_fallback\<close>.
\<close>

definition generateWordWithHuggingFace :: "env \<Rightarrow> jsstring \<Rightarrow> state \<Rightarrow> (exn + wordData) \<times> state" where
  "generateWordWithHuggingFace env date_s st =
     (let fallbackWord = FallbackWordsSystem_getWordByDate (fallbackWords env) date_s;
          ai_fallback = fallbackWord \<lparr> source := JStr (js ''ai_fallback'') \<rparr>
      in if \<not> hf env then (Inr ai_fallback, st)
         else (try_catch
                 (case inference_api env of
                    FetchFails \<Rightarrow> Inl Failure
                  | FetchResponse ok body \<Rightarrow>
                      if \<not> ok then Inr ai_fallback
                      else (case body of None \<Rightarrow> Inl SyntaxError | Some result \<Rightarrow> Inr ai_fallback))
                 (\<lambda>error. Inr ai_fallback),
               log_call ev_inference st))"

definition GET_v1_try :: "env \<Rightarrow> jsstring \<Rightarrow> state \<Rightarrow> (exn + response) \<times> state" where
  "GET_v1_try env date_s st =
     (if \<not> valid_date date_s
      then (Inr (Json_error (js ''Invalid date format. Use YYYY-MM-DD'') 400), st)
      else
        (case WordsDatabase_checkConnection env st of (c, st1) \<Rightarrow>
          (let isConnected = (case c of Inl error \<Rightarrow> False | Inr b \<Rightarrow> b) in
           if \<not> isConnected then
             (let fallbackWord = FallbackWordsSystem_getWordByDate (fallbackWords env) date_s;
                  wordWithSource = fallbackWord \<lparr> source := JStr (js ''database_unavailable'') \<rparr>
              in (Inr (Json_word wordWithSource), st1))
           else
             (case WordsDatabase_getWordByDate env date_s st1 of (q, st2) \<Rightarrow>
               (let existingWord = (case q of Inl error \<Rightarrow> None | Inr x \<Rightarrow> x) in
                (case existingWord of
                   Some row \<Rightarrow> (Inr (Json_word row), st2)
                 | None \<Rightarrow>
                     (case generateWordWithHuggingFace env date_s st2 of (g, st3) \<Rightarrow>
                       (let newWordData =
                              (case g of
                                 Inr w \<Rightarrow> w
                               | Inl error \<Rightarrow> FallbackWordsSystem_getWordByDate (fallbackWords env) date_s) in
                        (case WordsDatabase_saveWord env newWordData st3 of (s, st4) \<Rightarrow>
                          (let savedWord = (case s of Inl error \<Rightarrow> None | Inr x \<Rightarrow> x);
                               wordToReturn = (case savedWord of Some r \<Rightarrow> r | None \<Rightarrow> newWordData)
                           in (Inr (Json_word wordToReturn), st4)))))))))))"

definition GET_v1_catch :: "env \<Rightarrow> jsstring \<Rightarrow> exn \<Rightarrow> exn + response" where
  "GET_v1_catch env date_s error =
     try_catch
       (let emergencyWord = FallbackWordsSystem_getWordByDate (fallbackWords env) date_s
        in Inr (Json_word (emergencyWord \<lparr> source := JStr (js ''emergency'') \<rparr>)))
       (\<lambda>fallbackError. Inr (Json_word (hardcodedWord date_s ''emergency'')))"

definition GET_v1 :: "env \<Rightarrow> jsstring \<Rightarrow> state \<Rightarrow> (exn + response) \<times> state" where
  "GET_v1 env date_s st =
     (case GET_v1_try env date_s st of (r, st') \<Rightarrow> (try_catch r (GET_v1_catch env date_s), st'))"

section \<open>The history and search routes\<close>

text \<open>
  \<open>Math.min(Number.parseInt(searchParams.get("days") || "30"), 60)\<close>; the parameter
  is \<open>None\<close> when the request has none.
\<close>

definition history_days :: "jsstring option \<Rightarrow> int option" where
  "history_days days_param =
     Math_min
       (parseInt (case days_param of None \<Rightarrow> js ''30'' | Some s \<Rightarrow> if s = [] then js ''30'' else s))
       (Some 60)"

definition GET_history_try :: "env \<Rightarrow> jsstring option \<Rightarrow> state \<Rightarrow> (exn + response) \<times> state" where
  "GET_history_try env days_param st =
     (let days = history_days days_param in
      (case WordsDatabase_checkConnection env st of (c, st1) \<Rightarrow>
        (case c of
           Inl e \<Rightarrow> (Inl e, st1)
         | Inr isConnected \<Rightarrow>
             if \<not> isConnected
             then (Inr (Json_words (FallbackWordsSystem_getRecentWords (fallbackWords env) days)), st1)
             else
               (case WordsDatabase_getRecentWords env days st1 of (r, st2) \<Rightarrow>
                 (case r of
                    Inl e \<Rightarrow> (Inl e, st2)
                  | Inr wordsFromDB \<Rightarrow>
                      if length wordsFromDB > 0 then (Inr (Json_words wordsFromDB), st2)
                      else (Inr (Json_words (FallbackWordsSystem_getRecentWords (fallbackWords env) days)), st2))))))"

definition GET_history :: "env \<Rightarrow> jsstring option \<Rightarrow> state \<Rightarrow> (exn + response) \<times> state" where
  "GET_history env days_param st =
     (case GET_history_try env days_param st of (r, st') \<Rightarrow>
       (try_catch r
          (\<lambda>error. Inr (Json_words (FallbackWordsSystem_getRecentWords (fallbackWords env) (Some 30)))),
        st'))"

definition fallback_search :: "env \<Rightarrow> jsstring \<Rightarrow> exn + response" where
  "fallback_search env query =
     (case FallbackWordsSystem_searchWords (toLowerCase env) (fallbackWords env) query of
        Inl e \<Rightarrow> Inl e
      | Inr fallbackResults \<Rightarrow> Inr (Json_words fallbackResults))"

definition GET_search_try :: "env \<Rightarrow> jsstring option \<Rightarrow> state \<Rightarrow> (exn + response) \<times> state" where
  "GET_search_try env q st =
     (case q of
        None \<Rightarrow> (Inr (Json_error (js ''Query must be at least 2 characters long'') 400), st)
      | Some query \<Rightarrow>
          if query = [] \<or> length (trim query) < 2
          then (Inr (Json_error (js ''Query must be at least 2 characters long'') 400), st)
          else
            (case WordsDatabase_checkConnection env st of (c, st1) \<Rightarrow>
              (case c of
                 Inl e \<Rightarrow> (Inl e, st1)
               | Inr isConnected \<Rightarrow>
                   if \<not> isConnected then (fallback_search env (trim query), st1)
                   else
                     (case WordsDatabase_searchWords env (trim query) st1 of (r, st2) \<Rightarrow>
                       (case r of
                          Inl e \<Rightarrow> (Inl e, st2)
                        | Inr found \<Rightarrow>
                            if length found > 0 then (Inr (Json_words found), st2)
                            else (fallback_search env (trim query), st2))))))"

definition GET_search :: "env \<Rightarrow> jsstring option \<Rightarrow> state \<Rightarrow> (exn + response) \<times> state" where
  "GET_search env q st =
     (case GET_search_try env q st of (r, st') \<Rightarrow>
       (try_catch r (\<lambda>error. fallback_search env (case q of None \<Rightarrow> [] | Some s \<Rightarrow> s)), st'))"

section \<open>Notions used in the statements\<close>

text \<open>The requests that ask for AI generation: the seed word and the two inference calls.\<close>

fun ai_call :: "event \<Rightarrow> bool" where
  "ai_call ev_seed = True"
| "ai_call (ev_chat w) = True"
| "ai_call ev_inference = True"
| "ai_call e = False"

text \<open>\<open>chatCompletion.choices[0].message.content\<close>, as \<open>generateWord\<close> reads it.\<close>

definition response_content :: "jsval \<Rightarrow> jsval" where
  "response_content cc =
     get_prop (get_prop (elem0 (get_prop cc (js ''choices''))) (js ''message'')) (js ''content'')"

text \<open>A response wrapped in a markdown code fence: \<open>```json\<close>, a line feed, the text,
  a line feed, \<open>```\<close>.\<close>

definition fence :: "jsstring \<Rightarrow> jsstring" where
  "fence s = js ''```json'' @ [10] @ s @ [10] @ js ''```''"

text \<open>A catalog as the source declares it: \<open>word\<close>, \<open>definition\<close> and \<open>translation\<close>
  of every entry are strings. \<open>str_of\<close> reads such a field.\<close>

fun str_of :: "jsval \<Rightarrow> jsstring" where
  "str_of (JStr s) = s"
| "str_of v = []"

fun is_str :: "jsval \<Rightarrow> bool" where
  "is_str (JStr s) = True"
| "is_str v = False"

definition string_fields :: "wordData list \<Rightarrow> bool" where
  "string_fields catalog =
     list_all (\<lambda>w. is_str (word w) \<and> is_str (definition_w w) \<and> is_str (translation w)) catalog"

text \<open>
  A case-insensitive substring match over \<open>word\<close>, \<open>definition\<close> and \<open>translation\<close>,
  as the specification words it: the query, lower-cased, is a contiguous part of one of
  the three fields, lower-cased.
\<close>

definition matches_ci :: "(jsstring \<Rightarrow> jsstring) \<Rightarrow> jsstring \<Rightarrow> wordData \<Rightarrow> bool" where
  "matches_ci lower query w =
     (sublist (lower query) (lower (str_of (word w)))
      \<or> sublist (lower query) (lower (str_of (definition_w w)))
      \<or> sublist (lower query) (lower (str_of (translation w))))"

section \<open>Catalogs and environments for the examples\<close>

text \<open>
  A catalog of \<open>n\<close> entries whose words are \<open>word0\<close>, \<open>word1\<close>, ..., an environment with
  a reachable store that answers every request, no inference client, a fallback catalog of
  12 entries and a word bank of 30, and a store with no rows.
\<close>

definition entry :: "nat \<Rightarrow> generatedWord" where
  "entry n =
     \<lparr> word = JStr (js ''word'' @ show_nat n), phonetic = JStr (js ''/word/''),
       definition_w = JStr (js ''An entry of the catalog''), translation = JStr (js ''una entrada''),
       examples = JArr [JStr (js ''One.''), JStr (js ''Two.''), JStr (js ''Three.'')],
       level = JStr (js ''B2'') \<rparr>"

definition numbered_bank :: "nat \<Rightarrow> generatedWord list" where
  "numbered_bank n = map entry [0..<n]"

definition numbered_fallback :: "nat \<Rightarrow> wordData list" where
  "numbered_fallback n = map (\<lambda>i. with_date_source (entry i) (js ''2024-01-01'') ''manual'') [0..<n]"

definition ascii_lower :: "jsstring \<Rightarrow> jsstring" where
  "ascii_lower s = map (\<lambda>c. if 65 \<le> c \<and> c \<le> 90 then c + 32 else c) s"

definition example_env :: env where
  "example_env =
     \<lparr> supabase = True, hf = False, db_fault = (\<lambda>op. NoFault),
       store_meta = (\<lambda>w. (JStr (js ''1''), JStr (js ''2025-06-15T00:00:00Z''), JStr (js ''2025-06-15T00:00:00Z''))),
       recent_rows = (\<lambda>limit. Some []), search_rows = (\<lambda>query. Some []),
       random_word_api = FetchFails, chatCompletion = (\<lambda>seed. ChatFails),
       inference_api = FetchFails, JSON_parse = (\<lambda>s. None), toLowerCase = ascii_lower,
       fallbackWords = numbered_fallback 12, words = numbered_bank 30 \<rparr>"

text \<open>
  An AI response: a JSON object with four examples, a level outside B2 and C1 and no
  \<open>phonetic\<close>; the value that \<open>JSON.parse\<close> gives for it; a \<open>JSON.parse\<close> that knows
  this one text; and an environment whose seed source answers \<open>["Lucid", 42]\<close> and whose
  inference provider answers with the text in a code fence.
\<close>

definition lucid_text :: jsstring where
  \<open>lucid_text = js ''{"word":"lucid","definition":"Clear and easy to understand","translation":"lucido","examples":["A lucid account.","She was lucid.","Lucid prose.","A lucid dream."],"level":"Z9"}''\<close>

definition lucid_json :: jsval where
  "lucid_json =
     JObj [(js ''word'', JStr (js ''lucid'')),
           (js ''definition'', JStr (js ''Clear and easy to understand'')),
           (js ''translation'', JStr (js ''lucido'')),
           (js ''examples'', JArr [JStr (js ''A lucid account.''), JStr (js ''She was lucid.''),
                                   JStr (js ''Lucid prose.''), JStr (js ''A lucid dream.'')]),
           (js ''level'', JStr (js ''Z9''))]"

definition lucid_parse :: "jsstring \<Rightarrow> jsval option" where
  "lucid_parse s = (if s = lucid_text then Some lucid_json else None)"

definition lucid_word :: generatedWord where
  "lucid_word =
     \<lparr> word = JStr (js ''lucid''), phonetic = JStr (js ''/lucid/''),
       definition_w = JStr (js ''Clear and easy to understand''), translation = JStr (js ''lucido''),
       examples = JArr [JStr (js ''A lucid account.''), JStr (js ''She was lucid.''), JStr (js ''Lucid prose.'')],
       level = JStr (js ''Z9'') \<rparr>"

definition completion :: "jsstring \<Rightarrow> jsval" where
  "completion content =
     JObj [(js ''choices'', JArr [JObj [(js ''message'', JObj [(js ''content'', JStr content)])]])]"

definition ai_env :: env where
  "ai_env =
     example_env \<lparr> hf := True,
       random_word_api := FetchResponse True (Some (JArr [JStr (js ''Lucid''), JNum 42])),
       chatCompletion := (\<lambda>seed. ChatCompletion (completion (fence lucid_text))),
       JSON_parse := lucid_parse \<rparr>"

definition empty_state :: state where
  "empty_state = \<lparr> daily_words = (\<lambda>d. None), calls = [] \<rparr>"

section \<open>Dates and the selectors\<close>

declare show_nat.simps [simp del]
declare regex_remove.simps [simp del]

lemma is_digit_facts:
  assumes "is_digit c"
  shows "\<not> is_ws c" "c \<noteq> 45" "c \<noteq> 43" "c \<noteq> 120" "c \<noteq> 88" "dec_val c = Some (unat c - 48)"
  using assms by (auto simp: is_digit_def is_ws_def dec_val_def word_le_nat_alt)

lemma digits_value_all_digits:
  assumes "list_all is_digit s" "s \<noteq> []"
  shows "digits_value 10 dec_val s = Some (int (decimal s))"
proof -
  have tw: "takeWhile (\<lambda>c. dec_val c \<noteq> None) s = s"
    using assms(1) by (induction s) (auto simp: is_digit_facts)
  have "foldl (\<lambda>acc c. acc * 10 + the (dec_val c)) a s = foldl (\<lambda>acc c. acc * 10 + (unat c - 48)) a s" for a
    using assms(1) by (induction s arbitrary: a) (auto simp: is_digit_facts)
  then show ?thesis
    unfolding digits_value_def decimal_def Let_def tw using assms(2) by simp
qed

lemma parseInt_all_digits:
  assumes "list_all is_digit s" "s \<noteq> []"
  shows "parseInt s = Some (int (decimal s))"
proof -
  obtain c cs where s: "s = c # cs" using assms(2) by (cases s) auto
  have c: "is_digit c" using assms(1) s by simp
  have nohex: "\<not> (length s \<ge> 2 \<and> hd s = 48 \<and> (s ! 1 = 120 \<or> s ! 1 = 88))"
  proof (cases cs)
    case Nil then show ?thesis using s by simp
  next
    case (Cons d ds)
    then have "is_digit d" using assms(1) s by simp
    then show ?thesis using s Cons by (simp add: is_digit_facts)
  qed
  have dw: "dropWhile is_ws s = s" using s c by (simp add: is_digit_facts)
  have sg: "\<not> (s \<noteq> [] \<and> hd s = 45)" "\<not> (s \<noteq> [] \<and> (hd s = 43 \<or> hd s = 45))"
    using s c by (simp_all add: is_digit_facts)
  show ?thesis
    unfolding parseInt_def Let_def dw if_not_P[OF sg(2)] if_not_P[OF nohex] if_not_P[OF sg(1)]
    by (simp add: digits_value_all_digits[OF assms])
qed

lemma dateHash_valid:
  assumes "valid_date d"
  shows "dateHash d = Some (int (component_sum d))"
proof -
  from assms obtain y1 y2 y3 y4 m1 m2 d1 d2 where
    d: "d = [y1, y2, y3, y4, 45, m1, m2, 45, d1, d2]" and
    dg: "is_digit y1" "is_digit y2" "is_digit y3" "is_digit y4"
        "is_digit m1" "is_digit m2" "is_digit d1" "is_digit d2"
    by (auto elim!: valid_date.elims(2))
  have sp: "split_on 45 d = [[y1, y2, y3, y4], [m1, m2], [d1, d2]]"
    using dg by (simp add: d is_digit_facts)
  have p1: "parseInt [y1, y2, y3, y4] = Some (int (decimal [y1, y2, y3, y4]))"
    by (rule parseInt_all_digits) (simp_all add: dg)
  have p2: "parseInt [m1, m2] = Some (int (decimal [m1, m2]))"
    by (rule parseInt_all_digits) (simp_all add: dg)
  have p3: "parseInt [d1, d2] = Some (int (decimal [d1, d2]))"
    by (rule parseInt_all_digits) (simp_all add: dg)
  show ?thesis
    unfolding dateHash_def sp
    by (simp add: p1 p2 p3 component_sum_def date_year_def date_month_def date_day_def d)
qed

lemma selected_valid:
  assumes "valid_date d" "xs \<noteq> []"
  shows "js_index xs (js_rem (dateHash d) (length xs)) = Some (xs ! (component_sum d mod length xs))"
proof -
  have "sgn (int (component_sum d)) * (\<bar>int (component_sum d)\<bar> mod int (length xs))
          = int (component_sum d mod length xs)"
    by (cases "component_sum d = 0") (simp_all add: zmod_int)
  then show ?thesis
    using assms by (simp add: dateHash_valid js_rem_def js_index_def)
qed

lemma FallbackWordsSystem_getWordByDate_valid:
  assumes "valid_date d" "catalog \<noteq> []"
  shows "FallbackWordsSystem_getWordByDate catalog d
           = (catalog ! (component_sum d mod length catalog)) \<lparr> date := JStr d \<rparr>"
  by (simp add: FallbackWordsSystem_getWordByDate_def selected_valid[OF assms])

lemma SmartWordBank_getWordForDate_valid:
  assumes "valid_date d" "bank \<noteq> []"
  shows "SmartWordBank_getWordForDate bank d = Inr (bank ! (component_sum d mod length bank))"
  by (simp add: SmartWordBank_getWordForDate_def selected_valid[OF assms])


lemma valid_date_2025_06_15: "valid_date (js ''2025-06-15'')"
  by (simp add: js_def is_digit_def)

lemma component_sum_2025_06_15: "component_sum (js ''2025-06-15'') = 2046"
  by (simp add: component_sum_def date_year_def date_month_def date_day_def decimal_def js_def)

text \<open>
  C8. For a date that matches YYYY-MM-DD and a non-empty catalog, both selectors read
  the catalog at the sum of the three numeric components of the date modulo the length
  of the catalog. The result depends on the date and the catalog alone.
  \<open>FallbackWordsSystem.getWordByDate\<close> returns the entry with its \<open>date\<close> set to the
  input date; \<open>SmartWordBank.getWordForDate\<close> returns the entry and does not throw.
\<close>

theorem selectors_index_by_component_sum:
  assumes "valid_date date_s"
  shows "(catalog \<noteq> [] \<longrightarrow>
            FallbackWordsSystem_getWordByDate catalog date_s
              = (catalog ! ((date_year date_s + date_month date_s + date_day date_s) mod length catalog))
                  \<lparr> date := JStr date_s \<rparr>)
       \<and> (bank \<noteq> [] \<longrightarrow>
            SmartWordBank_getWordForDate bank date_s
              = Inr (bank ! ((date_year date_s + date_month date_s + date_day date_s) mod length bank)))"
  using assms
  by (simp add: FallbackWordsSystem_getWordByDate_valid SmartWordBank_getWordForDate_valid
        component_sum_def)

theorem selectors_index_by_component_sum_witness:
  "valid_date (js ''2025-06-15'')
   \<and> numbered_fallback 12 \<noteq> [] \<and> numbered_bank 30 \<noteq> []
   \<and> FallbackWordsSystem_getWordByDate (numbered_fallback 12) (js ''2025-06-15'')
       = (numbered_fallback 12 ! 6) \<lparr> date := JStr (js ''2025-06-15'') \<rparr>
   \<and> SmartWordBank_getWordForDate (numbered_bank 30) (js ''2025-06-15'') = Inr (numbered_bank 30 ! 6)"
  using selectors_index_by_component_sum[OF valid_date_2025_06_15,
          of "numbered_fallback 12" "numbered_bank 30"]
  using component_sum_2025_06_15
  by (simp add: valid_date_2025_06_15 component_sum_def numbered_fallback_def numbered_bank_def)

section \<open>The persistence gateway\<close>

lemma checkConnection_eq:
  "WordsDatabase_checkConnection env st =
     (Inr (supabase env \<and> db_fault env op_count = NoFault),
      if supabase env then log_call ev_count st else st)"
  by (simp add: WordsDatabase_checkConnection_def await_store_def try_catch_def split: fault.splits)

lemma getWordByDate_eq:
  "WordsDatabase_getWordByDate env d st =
     (Inr (if supabase env \<and> db_fault env op_select = NoFault then daily_words st (JStr d) else None),
      if supabase env then log_call (ev_select d) st else st)"
  by (simp add: WordsDatabase_getWordByDate_def await_store_def try_catch_def
           split: fault.splits option.splits)

lemma saveWord_eq:
  "WordsDatabase_saveWord env w st =
     (if supabase env \<and> db_fault env op_upsert = NoFault
      then (Inr (Some (stored_row env w)),
            (log_call (ev_upsert w) st) \<lparr> daily_words := (daily_words st)(date w \<mapsto> stored_row env w) \<rparr>)
      else (Inr None, if supabase env then log_call (ev_upsert w) st else st))"
  by (simp add: WordsDatabase_saveWord_def await_store_def try_catch_def Let_def log_call_def
           split: fault.splits option.splits)

lemma GET_disconnected:
  assumes "valid_date d" "\<not> (supabase env \<and> db_fault env op_count = NoFault)"
  shows "GET env d st =
     (Inr (Json_word ((FallbackWordsSystem_getWordByDate (fallbackWords env) d)
                        \<lparr> source := JStr (js ''database_unavailable'') \<rparr>)),
      if supabase env then log_call ev_count st else st)"
  using assms by (simp add: GET_def GET_try_def checkConnection_eq try_catch_def Let_def)


section \<open>The pipeline: stored rows and a disconnected store\<close>

text \<open>
  C2. For a valid date, when the connectivity check does not answer \<open>true\<close> (no client,
  an error answer, or a rejected request), the route answers with the record that
  \<open>FallbackWordsSystem.getWordByDate\<close> selects for the date, tagged
  \<open>database_unavailable\<close>. The only request sent is the connectivity check itself, when
  there is a client: no seed word is fetched, no inference call is made, nothing is saved.
\<close>

theorem disconnected_store_skips_generation:
  assumes "valid_date date_s"
      and "fst (WordsDatabase_checkConnection env st) \<noteq> Inr True"
  shows "fst (GET env date_s st)
           = Inr (Json_word ((FallbackWordsSystem_getWordByDate (fallbackWords env) date_s)
                               \<lparr> source := JStr (js ''database_unavailable'') \<rparr>))
       \<and> (fallbackWords env \<noteq> [] \<longrightarrow>
            FallbackWordsSystem_getWordByDate (fallbackWords env) date_s
              = (fallbackWords env ! ((date_year date_s + date_month date_s + date_day date_s)
                                        mod length (fallbackWords env))) \<lparr> date := JStr date_s \<rparr>)
       \<and> calls (snd (GET env date_s st)) = calls st @ (if supabase env then [ev_count] else [])
       \<and> filter ai_call (calls (snd (GET env date_s st))) = filter ai_call (calls st)
       \<and> daily_words (snd (GET env date_s st)) = daily_words st"
proof -
  from assms(2) have nc: "\<not> (supabase env \<and> db_fault env op_count = NoFault)"
    by (simp add: checkConnection_eq)
  show ?thesis
    using assms(1)
    by (simp add: GET_disconnected[OF assms(1) nc] log_call_def
          FallbackWordsSystem_getWordByDate_valid component_sum_def)
qed

theorem disconnected_store_skips_generation_witness:
  "valid_date (js ''2025-06-15'')
   \<and> fst (WordsDatabase_checkConnection (example_env \<lparr> db_fault := (\<lambda>op. Throws), hf := True \<rparr>) empty_state) \<noteq> Inr True
   \<and> fst (GET (example_env \<lparr> db_fault := (\<lambda>op. Throws), hf := True \<rparr>) (js ''2025-06-15'') empty_state)
       = Inr (Json_word (with_date_source (entry 6) (js ''2025-06-15'') ''database_unavailable''))
   \<and> calls (snd (GET (example_env \<lparr> db_fault := (\<lambda>op. Throws), hf := True \<rparr>) (js ''2025-06-15'') empty_state))
       = [ev_count]"
proof -
  let ?env = "example_env \<lparr> db_fault := (\<lambda>op. Throws), hf := True \<rparr>"
  have c: "fst (WordsDatabase_checkConnection ?env empty_state) \<noteq> Inr True"
    by (simp add: checkConnection_eq example_env_def)
  have fw: "fallbackWords ?env = numbered_fallback 12" "supabase ?env"
    by (simp_all add: example_env_def)
  have nth: "numbered_fallback 12 ! 6 = with_date_source (entry 6) (js ''2024-01-01'') ''manual''"
    "numbered_fallback 12 \<noteq> []" "length (numbered_fallback 12) = 12"
    by (simp_all add: numbered_fallback_def)
  have es: "calls empty_state = []"
    by (simp add: empty_state_def)
  from disconnected_store_skips_generation[OF valid_date_2025_06_15 c] component_sum_2025_06_15
  show ?thesis
    by (simp add: c valid_date_2025_06_15 fw nth es component_sum_def with_date_source_def)
qed



section \<open>The AI response parser: code fences and validation\<close>

lemma regex_remove_Nil: "regex_remove lit [] = []"
  by (simp add: regex_remove.simps)

lemma regex_remove_no_match:
  assumes "lit \<noteq> []" "hd lit \<notin> set s"
  shows "regex_remove lit s = s"
  using assms
proof (induction s)
  case Nil
  then show ?case by (simp add: regex_remove_Nil)
next
  case (Cons c cs)
  have "\<not> starts_with lit (c # cs)"
  proof
    assume "starts_with lit (c # cs)"
    then have "take (length lit) (c # cs) = lit" by (simp add: starts_with_def)
    with Cons.prems(1) have "hd lit = c" by (cases lit) auto
    with Cons.prems(2) show False by simp
  qed
  with Cons show ?case by (subst regex_remove.simps) simp
qed

lemma not_starts_with_append:
  assumes "s \<noteq> []" "last s \<notin> set lit" "\<not> starts_with lit s"
  shows "\<not> starts_with lit (s @ t)"
proof
  assume a: "starts_with lit (s @ t)"
  show False
  proof (cases "length lit \<le> length s")
    case True
    with a assms(3) show False by (simp add: starts_with_def)
  next
    case False
    with a have "s @ take (length lit - length s) t = lit" by (simp add: starts_with_def)
    from arg_cong[OF this, of set] have "set s \<subseteq> set lit" by auto
    moreover have "last s \<in> set s" using assms(1) by simp
    ultimately show False using assms(2) by blast
  qed
qed

lemma starts_with_longer:
  assumes "s \<noteq> []" "last s \<notin> set lit" "starts_with lit s"
  shows "length lit < length s" "drop (length lit) s \<noteq> []" "last (drop (length lit) s) = last s"
proof -
  from assms(3) have t: "take (length lit) s = lit" by (simp add: starts_with_def)
  have "length (take (length lit) s) = length lit" using t by simp
  then have "length lit \<le> length s" by simp
  moreover have "length lit \<noteq> length s"
  proof
    assume "length lit = length s"
    with t have "s = lit" by simp
    moreover have "last s \<in> set s" using assms(1) by simp
    ultimately show False using assms(2) by simp
  qed
  ultimately show "length lit < length s" by simp
  then show "drop (length lit) s \<noteq> []" by simp
  then show "last (drop (length lit) s) = last s" by (simp add: last_drop \<open>length lit < length s\<close>)
qed

lemma dropWhile_keeps_last:
  assumes "u \<noteq> []" "\<not> P (last u)"
  shows "dropWhile P u \<noteq> []" "last (dropWhile P u) = last u" "dropWhile P (u @ t) = dropWhile P u @ t"
proof -
  have m: "last u \<in> set u" using assms(1) by simp
  show 1: "dropWhile P u \<noteq> []" using m assms(2) by (auto simp: dropWhile_eq_Nil_conv)
  from last_appendR[OF 1, of "takeWhile P u"]
  show "last (dropWhile P u) = last u" by simp
  show "dropWhile P (u @ t) = dropWhile P u @ t"
    by (rule dropWhile_append1[where P = P, OF m assms(2)])
qed

lemma not_ws_125: "\<not> is_ws 125"
  by (simp add: is_ws_def)

lemma regex_remove_append:
  assumes "s \<noteq> []" "last s = 125" "125 \<notin> set lit"
  shows "regex_remove lit (s @ t) = regex_remove lit s @ regex_remove lit t
         \<and> regex_remove lit s \<noteq> [] \<and> last (regex_remove lit s) = 125"
  using assms
proof (induction lit s rule: regex_remove.induct)
  case (1 lit s)
  show ?case
  proof (cases "lit \<noteq> [] \<and> starts_with lit s")
    case True
    let ?u = "drop (length lit) s"
    let ?s' = "dropWhile is_ws ?u"
    have nl: "last s \<notin> set lit" using "1.prems" by simp
    have u: "?u \<noteq> []" "last ?u = 125" "length lit < length s"
      using starts_with_longer[OF "1.prems"(1) nl] True "1.prems"(2) by simp_all
    have nw: "\<not> is_ws (last ?u)" using u not_ws_125 by simp
    have s': "?s' \<noteq> []" "last ?s' = 125" "dropWhile is_ws (?u @ t) = ?s' @ t"
      using dropWhile_keeps_last[where P = is_ws, OF u(1) nw] u(2) by simp_all
    have ih: "regex_remove lit (?s' @ t) = regex_remove lit ?s' @ regex_remove lit t
         \<and> regex_remove lit ?s' \<noteq> [] \<and> last (regex_remove lit ?s') = 125"
      using "1.IH"(1)[OF "1.prems"(1) True s'(1) s'(2) "1.prems"(3)] .
    have sw: "starts_with lit (s @ t)"
      using True u(3) by (simp add: starts_with_def)
    have a: "regex_remove lit (s @ t) = regex_remove lit (?s' @ t)"
      using True sw "1.prems"(1) u(3) s'(3) by (subst regex_remove.simps) simp
    have b: "regex_remove lit s = regex_remove lit ?s'"
      using True "1.prems"(1) by (subst regex_remove.simps) simp
    show ?thesis using a b ih by simp
  next
    case False
    have nsw: "\<not> (lit \<noteq> [] \<and> starts_with lit (s @ t))"
    proof (cases "lit = []")
      case True then show ?thesis by simp
    next
      case F: False
      with False have "\<not> starts_with lit s" by simp
      then show ?thesis
        using not_starts_with_append[OF "1.prems"(1)] "1.prems"(2,3) by simp
    qed
    obtain c cs where s: "s = c # cs" using "1.prems"(1) by (cases s) auto
    have a: "regex_remove lit (s @ t) = c # regex_remove lit (cs @ t)"
      using nsw s by (subst regex_remove.simps) auto
    have b: "regex_remove lit s = c # regex_remove lit cs"
      using False s by (subst regex_remove.simps) auto
    show ?thesis
    proof (cases "cs = []")
      case True
      then show ?thesis using a b s "1.prems"(2) by (simp add: regex_remove_Nil)
    next
      case F2: False
      have "last cs = 125" using s F2 "1.prems"(2) by simp
      from "1.IH"(2)[OF "1.prems"(1) False] s F2 this "1.prems"(3)
      have "regex_remove lit (cs @ t) = regex_remove lit cs @ regex_remove lit t
         \<and> regex_remove lit cs \<noteq> [] \<and> last (regex_remove lit cs) = 125" by simp
      then show ?thesis using a b by simp
    qed
  qed
qed


lemma trim_id:
  assumes "s \<noteq> []" "\<not> is_ws (hd s)" "\<not> is_ws (last s)"
  shows "trim s = s"
proof -
  have dh: "dropWhile is_ws xs = xs" if "xs \<noteq> []" "\<not> is_ws (hd xs)" for xs
    using that by (cases xs) auto
  have 1: "dropWhile is_ws s = s" using assms(1,2) by (rule dh)
  have "hd (rev s) = last s" using assms(1) by (simp add: hd_rev)
  then have 2: "dropWhile is_ws (rev s) = rev s" using assms(1,3) by (intro dh) simp_all
  show ?thesis by (simp add: trim_def 1 2)
qed

lemma regex_remove_Cons_other:
  assumes "lit \<noteq> []" "hd lit \<noteq> c"
  shows "regex_remove lit (c # cs) = c # regex_remove lit cs"
proof -
  have "\<not> starts_with lit (c # cs)"
    using assms by (cases lit) (auto simp: starts_with_def)
  then show ?thesis by (subst regex_remove.simps) simp
qed

lemma fence_marks:
  "js ''```json'' = [96, 96, 96, 106, 115, 111, 110]" "js ''```'' = [96, 96, 96]"
  by (simp_all add: js_def)

lemma regex_remove_tail1: "regex_remove [96, 96, 96, 106, 115, 111, 110] [10, 96, 96, 96] = [10, 96, 96, 96]"
  by (simp add: regex_remove.simps starts_with_def)

lemma regex_remove_tail2: "regex_remove [96, 96, 96] [10, 96, 96, 96] = [10]"
  by (simp add: regex_remove.simps starts_with_def)

lemma indexOf_hd: "indexOf (c # cs) c = 0"
  by (simp add: indexOf_def)

lemma lastIndexOf_last:
  assumes "s \<noteq> []" "last s = c"
  shows "lastIndexOf s c = int (length s) - 1"
proof -
  obtain r rs where r: "rev s = r # rs" using assms(1) by (cases "rev s") auto
  then have "r = c" using assms by (metis hd_rev list.sel(1))
  then have "takeWhile (\<lambda>x. x \<noteq> c) (rev s) = []" using r by simp
  moreover have "c \<in> set s" using assms by (metis last_in_set)
  ultimately show ?thesis by (simp add: lastIndexOf_def)
qed

lemma lastIndexOf_before_last:
  assumes "s \<noteq> []" "last s = c" "d \<noteq> c"
  shows "lastIndexOf (s @ [d]) c = int (length s) - 1"
proof -
  obtain r rs where r: "rev s = r # rs" using assms(1) by (cases "rev s") auto
  then have "r = c" using assms by (metis hd_rev list.sel(1))
  then have "takeWhile (\<lambda>x. x \<noteq> c) (rev (s @ [d])) = [d]" using r assms(3) by simp
  moreover have "c \<in> set (s @ [d])" using assms by (metis last_in_set in_set_conv_decomp append_Cons append.assoc)
  ultimately show ?thesis by (simp add: lastIndexOf_def)
qed

lemma substring_prefix:
  assumes "n \<le> length s"
  shows "substring s 0 (int n) = take n s"
  using assms by (simp add: substring_def Let_def)

lemma extractJSON_of_clean:
  assumes "y = 123 # y'" "y' \<noteq> []" "last y' = 125" "z = y \<or> z = y @ [10]"
      and "regex_remove (js ''```'') (regex_remove (js ''```json'') (trim t)) = z"
  shows "extractJSON t = y"
proof -
  have y: "y \<noteq> []" "last y = 125" "length y \<ge> 2"
    using assms(1,2,3) by (auto simp: Suc_le_eq)
  have i: "indexOf z 123 = 0" using assms(1,4) by (auto simp: indexOf_def)
  have l: "lastIndexOf z 125 = int (length y) - 1"
    using assms(4) lastIndexOf_last[OF y(1,2)] lastIndexOf_before_last[OF y(1,2), of 10] by auto
  have sub: "substring z 0 (int (length y)) = y"
    using assms(4) by (auto simp: substring_prefix)
  have "int (length y) - 1 > 0" using y(3) by simp
  then show ?thesis
    unfolding extractJSON_def Let_def assms(5) i l using sub y(1) by simp
qed

lemma clean_object:
  assumes "s = 123 # s'" "s' \<noteq> []" "last s' = 125"
  shows "\<exists>y'. regex_remove (js ''```'') (regex_remove (js ''```json'') s) = 123 # y' \<and> y' \<noteq> [] \<and> last y' = 125"
proof -
  have 1: "regex_remove (js ''```json'') s = 123 # regex_remove (js ''```json'') s'"
    unfolding assms(1) fence_marks by (rule regex_remove_Cons_other) simp_all
  have x: "regex_remove (js ''```json'') s' \<noteq> []" "last (regex_remove (js ''```json'') s') = 125"
    using regex_remove_append[OF assms(2,3), of "js ''```json''" "[]"] by (simp_all add: fence_marks)
  have 2: "regex_remove (js ''```'') (123 # regex_remove (js ''```json'') s')
             = 123 # regex_remove (js ''```'') (regex_remove (js ''```json'') s')"
    unfolding fence_marks by (rule regex_remove_Cons_other) simp_all
  have y: "regex_remove (js ''```'') (regex_remove (js ''```json'') s') \<noteq> []"
          "last (regex_remove (js ''```'') (regex_remove (js ''```json'') s')) = 125"
    using regex_remove_append[OF x, of "js ''```''" "[]"] by (simp_all add: fence_marks)
  show ?thesis using 1 2 y by simp
qed

lemma clean_fence:
  assumes "s = 123 # s'" "s' \<noteq> []" "last s' = 125"
  shows "regex_remove (js ''```'') (regex_remove (js ''```json'') (fence s))
           = regex_remove (js ''```'') (regex_remove (js ''```json'') s) @ [10]"
proof -
  have s: "s \<noteq> []" "last s = 125" using assms by auto
  have ws10: "is_ws 10" by (simp add: is_ws_def)
  have dw: "dropWhile is_ws (s @ [10, 96, 96, 96]) = s @ [10, 96, 96, 96]"
    using assms(1) by (simp add: is_ws_def)
  have a: "regex_remove (js ''```json'') (fence s) = regex_remove (js ''```json'') (s @ [10, 96, 96, 96])"
    unfolding fence_def fence_marks
    by (subst regex_remove.simps) (simp add: starts_with_def dw ws10)
  have b: "regex_remove (js ''```json'') (s @ [10, 96, 96, 96]) = regex_remove (js ''```json'') s @ [10, 96, 96, 96]"
    using regex_remove_append[OF s, of "js ''```json''" "[10, 96, 96, 96]"]
    by (simp add: fence_marks regex_remove_tail1)
  have x: "regex_remove (js ''```json'') s \<noteq> []" "last (regex_remove (js ''```json'') s) = 125"
    using regex_remove_append[OF s, of "js ''```json''" "[]"] by (simp_all add: fence_marks)
  have c: "regex_remove (js ''```'') (regex_remove (js ''```json'') s @ [10, 96, 96, 96])
             = regex_remove (js ''```'') (regex_remove (js ''```json'') s) @ [10]"
    using regex_remove_append[OF x, of "js ''```''" "[10, 96, 96, 96]"]
    by (simp add: fence_marks regex_remove_tail2)
  show ?thesis by (simp add: a b c)
qed

lemma extractJSON_fence:
  assumes "s = 123 # s'" "s' \<noteq> []" "last s' = 125"
  shows "extractJSON (fence s) = extractJSON s"
proof -
  obtain y' where y: "regex_remove (js ''```'') (regex_remove (js ''```json'') s) = 123 # y'"
      "y' \<noteq> []" "last y' = 125"
    using clean_object[OF assms] by blast
  have t1: "trim s = s"
    using assms by (intro trim_id) (simp_all add: is_ws_def)
  have t2: "trim (fence s) = fence s"
    by (intro trim_id) (simp_all add: fence_def fence_marks is_ws_def)
  have 1: "extractJSON s = 123 # y'"
    by (rule extractJSON_of_clean[OF refl y(2,3), of "123 # y'"]) (simp_all add: t1 y(1))
  have 2: "extractJSON (fence s) = 123 # y'"
    by (rule extractJSON_of_clean[OF refl y(2,3), of "(123 # y') @ [10]"])
       (simp_all add: t2 clean_fence[OF assms] y(1))
  show ?thesis by (simp add: 1 2)
qed

lemma extractJSON_plain:
  assumes "s = 123 # s'" "s' \<noteq> []" "last s' = 125" "96 \<notin> set s"
  shows "extractJSON s = s"
proof -
  have t1: "trim s = s"
    using assms by (intro trim_id) (simp_all add: is_ws_def)
  have c: "regex_remove (js ''```'') (regex_remove (js ''```json'') s) = s"
    using assms(4) by (simp add: regex_remove_no_match fence_marks)
  show ?thesis
    by (rule extractJSON_of_clean[OF assms(1,2,3), of s]) (simp_all add: t1 c)
qed


lemma parseJSONResponse_Some_iff:
  "parseJSONResponse p (JStr t) = Some g \<longleftrightarrow>
     (\<exists>parsed xs. p (extractJSON t) = Some parsed
        \<and> truthy (get_prop parsed (js ''word''))
        \<and> truthy (get_prop parsed (js ''definition''))
        \<and> truthy (get_prop parsed (js ''translation''))
        \<and> get_prop parsed (js ''examples'') = JArr xs \<and> 2 \<le> length xs
        \<and> g = \<lparr> word = get_prop parsed (js ''word''),
                phonetic = (if truthy (get_prop parsed (js ''phonetic''))
                            then get_prop parsed (js ''phonetic'')
                            else JStr (47 # ToString (get_prop parsed (js ''word'')) @ [47])),
                definition_w = get_prop parsed (js ''definition''),
                translation = get_prop parsed (js ''translation''),
                examples = JArr (take 3 xs),
                level = (if truthy (get_prop parsed (js ''level''))
                         then get_prop parsed (js ''level'') else JStr (js ''B2'')) \<rparr>)"
proof (cases "p (extractJSON t)")
  case None
  then show ?thesis by (simp add: parseJSONResponse_def parseJSONResponse_try_def)
next
  case (Some parsed)
  have nn: "nullish parsed \<Longrightarrow> \<not> truthy (get_prop parsed (js ''word''))"
    by (auto simp: nullish_def get_prop_def)
  show ?thesis
  proof (cases "get_prop parsed (js ''examples'')")
    case (JArr xs)
    then show ?thesis
      using Some nn
      by (cases "nullish parsed") (auto simp: parseJSONResponse_def parseJSONResponse_try_def)
  qed (use Some nn in \<open>auto simp: parseJSONResponse_def parseJSONResponse_try_def\<close>)
qed

lemma js_nonempty: "js (c # cs) \<noteq> []"
  by (simp add: js_def)

lemma parseJSONResponse_complete:
  assumes "parseJSONResponse p (JStr t) = Some g"
  shows "truthy (word g) \<and> truthy (phonetic g) \<and> truthy (definition_w g) \<and> truthy (translation g)
       \<and> truthy (level g) \<and> (\<exists>ys. examples g = JArr ys \<and> 2 \<le> length ys \<and> length ys \<le> 3)"
proof -
  from assms obtain parsed xs where
    h: "truthy (get_prop parsed (js ''word''))" "truthy (get_prop parsed (js ''definition''))"
       "truthy (get_prop parsed (js ''translation''))" "2 \<le> length xs"
    and g: "g = \<lparr> word = get_prop parsed (js ''word''),
                phonetic = (if truthy (get_prop parsed (js ''phonetic''))
                            then get_prop parsed (js ''phonetic'')
                            else JStr (47 # ToString (get_prop parsed (js ''word'')) @ [47])),
                definition_w = get_prop parsed (js ''definition''),
                translation = get_prop parsed (js ''translation''),
                examples = JArr (take 3 xs),
                level = (if truthy (get_prop parsed (js ''level''))
                         then get_prop parsed (js ''level'') else JStr (js ''B2'')) \<rparr>"
    unfolding parseJSONResponse_Some_iff by blast
  show ?thesis using h by (simp add: g js_nonempty)
qed

lemma parseJSONResponse_fence:
  assumes "hd s = 123" "last s = 125" "2 \<le> length s"
  shows "parseJSONResponse p (JStr (fence s)) = parseJSONResponse p (JStr s)"
proof -
  obtain c s' where s: "s = c # s'" "s' \<noteq> []" using assms(3) by (cases s; cases "tl s") auto
  with assms have "s = 123 # s'" "s' \<noteq> []" "last s' = 125" by auto
  from extractJSON_fence[OF this] show ?thesis
    by (simp add: parseJSONResponse_def parseJSONResponse_try_def)
qed

lemma lucid_text_shape:
  "\<exists>s'. lucid_text = 123 # s' \<and> s' \<noteq> [] \<and> last s' = 125 \<and> 96 \<notin> set lucid_text"
  by (simp add: lucid_text_def js_def)

lemma extractJSON_lucid: "extractJSON lucid_text = lucid_text" "extractJSON (fence lucid_text) = lucid_text"
proof -
  obtain s' where s: "lucid_text = 123 # s'" "s' \<noteq> []" "last s' = 125" "96 \<notin> set lucid_text"
    using lucid_text_shape by blast
  show 1: "extractJSON lucid_text = lucid_text" by (rule extractJSON_plain[OF s])
  show "extractJSON (fence lucid_text) = lucid_text" using extractJSON_fence[OF s(1,2,3)] 1 by simp
qed

lemma parse_lucid: "parseJSONResponse lucid_parse (JStr lucid_text) = Some lucid_word"
  "parseJSONResponse lucid_parse (JStr (fence lucid_text)) = Some lucid_word"
  unfolding parseJSONResponse_Some_iff extractJSON_lucid
  by (simp_all add: lucid_parse_def lucid_json_def lucid_word_def get_prop_def js_def)

text \<open>
  C7 (as amended). For every response text: a JSON object wrapped in a \<open>```json\<close> code
  fence is parsed to the same result as the bare object. A record is returned exactly
  when \<open>JSON.parse\<close> of the extracted text succeeds and \<open>word\<close>, \<open>definition\<close> and
  \<open>translation\<close> of the parsed value are truthy (for strings: non-empty) and its
  \<open>examples\<close> is an array of at least two entries. The record then has the parsed
  \<open>word\<close>, \<open>definition\<close> and \<open>translation\<close>, the first three examples, the parsed
  \<open>phonetic\<close> or else \<open>/word/\<close>, and the parsed \<open>level\<close> or else \<open>B2\<close>: the level is
  replaced only when it is absent or falsy, any other level is kept as it is. Every
  returned record has all six fields, and in every other case the result is \<open>null\<close>.
\<close>

theorem parseJSONResponse_accepts_validated_objects:
  "(hd s = 123 \<and> last s = 125 \<and> 2 \<le> length s \<longrightarrow>
      parseJSONResponse p (JStr (fence s)) = parseJSONResponse p (JStr s))
   \<and> (parseJSONResponse p (JStr t) = Some g \<longleftrightarrow>
       (\<exists>parsed xs. p (extractJSON t) = Some parsed
          \<and> truthy (get_prop parsed (js ''word''))
          \<and> truthy (get_prop parsed (js ''definition''))
          \<and> truthy (get_prop parsed (js ''translation''))
          \<and> get_prop parsed (js ''examples'') = JArr xs \<and> 2 \<le> length xs
          \<and> g = \<lparr> word = get_prop parsed (js ''word''),
                  phonetic = (if truthy (get_prop parsed (js ''phonetic''))
                              then get_prop parsed (js ''phonetic'')
                              else JStr (47 # ToString (get_prop parsed (js ''word'')) @ [47])),
                  definition_w = get_prop parsed (js ''definition''),
                  translation = get_prop parsed (js ''translation''),
                  examples = JArr (take 3 xs),
                  level = (if truthy (get_prop parsed (js ''level''))
                           then get_prop parsed (js ''level'') else JStr (js ''B2'')) \<rparr>))
   \<and> (parseJSONResponse p (JStr t) = Some g \<longrightarrow>
         truthy (word g) \<and> truthy (phonetic g) \<and> truthy (definition_w g)
       \<and> truthy (translation g) \<and> truthy (level g)
       \<and> (\<exists>ys. examples g = JArr ys \<and> 2 \<le> length ys \<and> length ys \<le> 3))"
  using parseJSONResponse_fence[of s p] parseJSONResponse_Some_iff[of p t g]
    parseJSONResponse_complete[of p t g]
  by blast

theorem parseJSONResponse_accepts_validated_objects_witness:
  "hd lucid_text = 123 \<and> last lucid_text = 125 \<and> 2 \<le> length lucid_text
   \<and> parseJSONResponse lucid_parse (JStr lucid_text) = Some lucid_word
   \<and> parseJSONResponse lucid_parse (JStr (fence lucid_text)) = Some lucid_word
   \<and> truthy (phonetic lucid_word) \<and> truthy (level lucid_word)
   \<and> (\<exists>ys. examples lucid_word = JArr ys \<and> 2 \<le> length ys \<and> length ys \<le> 3)"
proof -
  have sh: "hd lucid_text = 123" "last lucid_text = 125" "2 \<le> length lucid_text"
    by (simp_all add: lucid_text_def js_def)
  from parseJSONResponse_accepts_validated_objects[of lucid_text lucid_parse lucid_text lucid_word]
  show ?thesis using sh parse_lucid(1) by simp
qed

text \<open>
  The response \<open>lucid_text\<close> has the level \<open>Z9\<close>, which is neither B2 nor C1; the record
  parsed from it keeps \<open>Z9\<close>.
\<close>

theorem invalid_level_is_kept:
  "lucid_parse (extractJSON lucid_text) = Some lucid_json
   \<and> get_prop lucid_json (js ''level'') = JStr (js ''Z9'')
   \<and> map_option level (parseJSONResponse lucid_parse (JStr lucid_text)) = Some (JStr (js ''Z9''))
   \<and> JStr (js ''Z9'') \<noteq> JStr (js ''B2'')"
  by (simp add: parse_lucid extractJSON_lucid lucid_parse_def lucid_word_def lucid_json_def
        get_prop_def js_def)

section \<open>The generator\<close>

lemma getRandomWord_shape:
  "\<exists>r. HuggingFaceWordGenerator_getRandomWord env st = (Inr r, log_call ev_seed st)"
  by (auto simp: HuggingFaceWordGenerator_getRandomWord_def try_catch_def
           split: fetch_result.splits option.splits jsval.splits list.splits)

lemma getRandomWord_None:
  assumes "random_word_api env = FetchFails
           \<or> (\<exists>body. random_word_api env = FetchResponse False body)
           \<or> random_word_api env = FetchResponse True None
           \<or> (\<exists>data. random_word_api env = FetchResponse True (Some data)
                  \<and> \<not> (\<exists>w rest. data = JArr (JStr w # rest)))"
  shows "HuggingFaceWordGenerator_getRandomWord env st = (Inr None, log_call ev_seed st)"
  using assms
  by (auto simp: HuggingFaceWordGenerator_getRandomWord_def try_catch_def
           split: fetch_result.splits option.splits jsval.splits list.splits)

lemma getRandomWord_Some:
  assumes "random_word_api env = FetchResponse True (Some (JArr (JStr w # rest)))"
  shows "HuggingFaceWordGenerator_getRandomWord env st = (Inr (Some (toLowerCase env w)), log_call ev_seed st)"
  using assms
  by (simp add: HuggingFaceWordGenerator_getRandomWord_def try_catch_def)

lemma generateWord_shape:
  "\<exists>r es. HuggingFaceWordGenerator_generateWord env d st = (Inr r, st \<lparr> calls := calls st @ es \<rparr>)
        \<and> (es = [] \<or> es = [ev_seed] \<or> (\<exists>w. es = [ev_seed, ev_chat w]))
        \<and> (\<not> hf env \<longrightarrow> r = None \<and> es = [])"
proof (cases "hf env")
  case False
  then have "HuggingFaceWordGenerator_generateWord env d st = (Inr None, st \<lparr> calls := calls st @ [] \<rparr>)"
    by (simp add: HuggingFaceWordGenerator_generateWord_def)
  with False show ?thesis by blast
next
  case True
  obtain r where r: "HuggingFaceWordGenerator_getRandomWord env st = (Inr r, log_call ev_seed st)"
    using getRandomWord_shape by blast
  have l1: "log_call ev_seed st = st \<lparr> calls := calls st @ [ev_seed] \<rparr>"
    by (simp add: log_call_def)
  show ?thesis
  proof (cases "r = None \<or> r = Some []")
    case True
    then have "HuggingFaceWordGenerator_generateWord env d st = (Inr None, st \<lparr> calls := calls st @ [ev_seed] \<rparr>)"
      using \<open>hf env\<close> r l1 by (auto simp: HuggingFaceWordGenerator_generateWord_def)
    with \<open>hf env\<close> show ?thesis by blast
  next
    case False
    then obtain w where w: "r = Some w" "w \<noteq> []" by auto
    have l2: "log_call (ev_chat w) (log_call ev_seed st) = st \<lparr> calls := calls st @ [ev_seed, ev_chat w] \<rparr>"
      by (simp add: log_call_def)
    have "\<exists>x. HuggingFaceWordGenerator_generateWord env d st = (Inr x, st \<lparr> calls := calls st @ [ev_seed, ev_chat w] \<rparr>)"
      using \<open>hf env\<close> r w unfolding HuggingFaceWordGenerator_generateWord_def l2[symmetric]
      by (auto simp: try_catch_def Let_def split: chat_result.splits option.splits)
    with \<open>hf env\<close> show ?thesis by blast
  qed
qed

lemma generateWord_no_seed:
  assumes "HuggingFaceWordGenerator_getRandomWord env st = (Inr None, st1)"
  shows "fst (HuggingFaceWordGenerator_generateWord env d st) = Inr None"
  using assms by (simp add: HuggingFaceWordGenerator_generateWord_def)

lemma generateWord_seeded:
  assumes "hf env" "random_word_api env = FetchResponse True (Some (JArr (JStr w # rest)))"
  shows "fst (HuggingFaceWordGenerator_generateWord env d st) =
     Inr (if toLowerCase env w = [] then None
          else case chatCompletion env (toLowerCase env w) of
                 ChatFails \<Rightarrow> None
               | ChatCompletion cc \<Rightarrow>
                   if truthy cc \<and> truthy (get_prop cc (js ''choices'')) \<and>
                      truthy (elem0 (get_prop cc (js ''choices''))) \<and>
                      truthy (get_prop (elem0 (get_prop cc (js ''choices''))) (js ''message'')) \<and>
                      truthy (response_content cc)
                   then parseJSONResponse (JSON_parse env) (response_content cc)
                   else None)"
  using assms(1)
  by (auto simp: HuggingFaceWordGenerator_generateWord_def getRandomWord_Some[OF assms(2)]
        try_catch_def Let_def response_content_def split: chat_result.splits option.splits)


lemma response_content_completion: "response_content (completion x) = JStr x"
  "truthy (completion x)" "truthy (get_prop (completion x) (js ''choices''))"
  "truthy (elem0 (get_prop (completion x) (js ''choices'')))"
  "truthy (get_prop (elem0 (get_prop (completion x) (js ''choices''))) (js ''message''))"
  by (simp_all add: response_content_def completion_def get_prop_def elem0_def js_def)

lemma ai_env_fields:
  "hf ai_env" "random_word_api ai_env = FetchResponse True (Some (JArr [JStr (js ''Lucid''), JNum 42]))"
  "chatCompletion ai_env = (\<lambda>seed. ChatCompletion (completion (fence lucid_text)))"
  "JSON_parse ai_env = lucid_parse" "toLowerCase ai_env = ascii_lower"
  "supabase ai_env" "db_fault ai_env = (\<lambda>op. NoFault)" "words ai_env = numbered_bank 30"
  by (simp_all add: ai_env_def example_env_def)

lemma ascii_lower_Lucid: "ascii_lower (js ''Lucid'') = js ''lucid''"
  by (simp add: ascii_lower_def js_def)

lemma fence_nonempty: "fence s \<noteq> []"
  by (simp add: fence_def js_def)

lemma generateWord_lucid:
  assumes "hf env" "random_word_api env = FetchResponse True (Some (JArr [JStr (js ''Lucid''), JNum 42]))"
      and "chatCompletion env = (\<lambda>seed. ChatCompletion (completion (fence lucid_text)))"
      and "JSON_parse env = lucid_parse" "toLowerCase env = ascii_lower"
  shows "fst (HuggingFaceWordGenerator_generateWord env d st) = Inr (Some lucid_word)"
  by (simp add: generateWord_seeded[OF assms(1,2)] assms(3,4,5) ascii_lower_Lucid
        response_content_completion fence_nonempty parse_lucid js_nonempty)

text \<open>
  C6 (as amended). \<open>generateWord\<close> never throws. It sends at most one request for a
  seed word and at most one inference request, in this order. Its result is \<open>null\<close>
  when there is no inference client; when the seed request fails, answers with a
  non-success status, has a body that is no JSON, or a body that is not a non-empty array
  whose first element is a string; when the inference request fails; and when the content
  of the completion is not parsed to a valid record.
\<close>

theorem generateWord_never_throws:
  "(\<exists>r. fst (HuggingFaceWordGenerator_generateWord env date_s st) = Inr r)
   \<and> (\<exists>es. snd (HuggingFaceWordGenerator_generateWord env date_s st) = st \<lparr> calls := calls st @ es \<rparr>
           \<and> (es = [] \<or> es = [ev_seed] \<or> (\<exists>w. es = [ev_seed, ev_chat w])))
   \<and> (\<not> hf env \<longrightarrow> fst (HuggingFaceWordGenerator_generateWord env date_s st) = Inr None)
   \<and> (random_word_api env = FetchFails \<longrightarrow>
         fst (HuggingFaceWordGenerator_generateWord env date_s st) = Inr None)
   \<and> ((\<exists>body. random_word_api env = FetchResponse False body) \<longrightarrow>
         fst (HuggingFaceWordGenerator_generateWord env date_s st) = Inr None)
   \<and> (random_word_api env = FetchResponse True None \<longrightarrow>
         fst (HuggingFaceWordGenerator_generateWord env date_s st) = Inr None)
   \<and> ((\<exists>data. random_word_api env = FetchResponse True (Some data)
              \<and> \<not> (\<exists>w rest. data = JArr (JStr w # rest))) \<longrightarrow>
         fst (HuggingFaceWordGenerator_generateWord env date_s st) = Inr None)
   \<and> ((\<exists>w rest. random_word_api env = FetchResponse True (Some (JArr (JStr w # rest)))
              \<and> chatCompletion env (toLowerCase env w) = ChatFails) \<longrightarrow>
         fst (HuggingFaceWordGenerator_generateWord env date_s st) = Inr None)
   \<and> ((\<exists>w rest cc. random_word_api env = FetchResponse True (Some (JArr (JStr w # rest)))
              \<and> chatCompletion env (toLowerCase env w) = ChatCompletion cc
              \<and> parseJSONResponse (JSON_parse env) (response_content cc) = None) \<longrightarrow>
         fst (HuggingFaceWordGenerator_generateWord env date_s st) = Inr None)"
proof -
  let ?G = "HuggingFaceWordGenerator_generateWord env date_s st"
  obtain r es where g: "?G = (Inr r, st \<lparr> calls := calls st @ es \<rparr>)"
    "es = [] \<or> es = [ev_seed] \<or> (\<exists>w. es = [ev_seed, ev_chat w])" "\<not> hf env \<longrightarrow> r = None \<and> es = []"
    using generateWord_shape by blast
  have 1: "\<exists>r. fst ?G = Inr r" using g(1) by simp
  have 2: "\<exists>es. snd ?G = st \<lparr> calls := calls st @ es \<rparr>
           \<and> (es = [] \<or> es = [ev_seed] \<or> (\<exists>w. es = [ev_seed, ev_chat w]))"
    using g(1,2) by auto
  have 3: "\<not> hf env \<longrightarrow> fst ?G = Inr None" using g(1,3) by simp
  have noseed: "fst ?G = Inr None"
    if "random_word_api env = FetchFails
           \<or> (\<exists>body. random_word_api env = FetchResponse False body)
           \<or> random_word_api env = FetchResponse True None
           \<or> (\<exists>data. random_word_api env = FetchResponse True (Some data)
                  \<and> \<not> (\<exists>w rest. data = JArr (JStr w # rest)))"
  proof (cases "hf env")
    case True
    show ?thesis by (rule generateWord_no_seed[OF getRandomWord_None[OF that]])
  next
    case False
    with 3 show ?thesis by simp
  qed
  have seeded: "fst ?G = Inr None"
    if "random_word_api env = FetchResponse True (Some (JArr (JStr w # rest)))"
       "chatCompletion env (toLowerCase env w) = ChatFails
        \<or> (\<exists>cc. chatCompletion env (toLowerCase env w) = ChatCompletion cc
                \<and> parseJSONResponse (JSON_parse env) (response_content cc) = None)" for w rest
  proof (cases "hf env")
    case True
    show ?thesis using that(2) by (auto simp: generateWord_seeded[OF True that(1)])
  next
    case False
    with 3 show ?thesis by simp
  qed
  show ?thesis
    using 1 2 3 noseed seeded by blast
qed

theorem generateWord_never_throws_witness:
  "fst (HuggingFaceWordGenerator_generateWord example_env (js ''2025-06-15'') empty_state) = Inr None
   \<and> fst (HuggingFaceWordGenerator_generateWord (ai_env \<lparr> random_word_api := FetchFails \<rparr>)
            (js ''2025-06-15'') empty_state) = Inr None
   \<and> fst (HuggingFaceWordGenerator_generateWord
            (ai_env \<lparr> random_word_api := FetchResponse False (Some Null) \<rparr>)
            (js ''2025-06-15'') empty_state) = Inr None
   \<and> fst (HuggingFaceWordGenerator_generateWord
            (ai_env \<lparr> random_word_api := FetchResponse True None \<rparr>)
            (js ''2025-06-15'') empty_state) = Inr None
   \<and> fst (HuggingFaceWordGenerator_generateWord
            (ai_env \<lparr> random_word_api := FetchResponse True (Some (JObj [])) \<rparr>)
            (js ''2025-06-15'') empty_state) = Inr None
   \<and> fst (HuggingFaceWordGenerator_generateWord (ai_env \<lparr> chatCompletion := (\<lambda>seed. ChatFails) \<rparr>)
            (js ''2025-06-15'') empty_state) = Inr None
   \<and> fst (HuggingFaceWordGenerator_generateWord (ai_env \<lparr> JSON_parse := (\<lambda>s. None) \<rparr>)
            (js ''2025-06-15'') empty_state) = Inr None"
proof -
  have pn: "parseJSONResponse (\<lambda>s. None) (JStr t) = None" for t
    by (simp add: parseJSONResponse_def parseJSONResponse_try_def)
  show ?thesis
    using generateWord_never_throws[of example_env "js ''2025-06-15''" empty_state]
      generateWord_never_throws[of "ai_env \<lparr> random_word_api := FetchFails \<rparr>" "js ''2025-06-15''" empty_state]
      generateWord_never_throws[of "ai_env \<lparr> random_word_api := FetchResponse False (Some Null) \<rparr>"
        "js ''2025-06-15''" empty_state]
      generateWord_never_throws[of "ai_env \<lparr> random_word_api := FetchResponse True None \<rparr>"
        "js ''2025-06-15''" empty_state]
      generateWord_never_throws[of "ai_env \<lparr> random_word_api := FetchResponse True (Some (JObj [])) \<rparr>"
        "js ''2025-06-15''" empty_state]
      generateWord_never_throws[of "ai_env \<lparr> chatCompletion := (\<lambda>seed. ChatFails) \<rparr>"
        "js ''2025-06-15''" empty_state]
      generateWord_never_throws[of "ai_env \<lparr> JSON_parse := (\<lambda>s. None) \<rparr>"
        "js ''2025-06-15''" empty_state]
    by (simp add: ai_env_fields example_env_def response_content_completion pn)
qed

text \<open>
  The seed payload \<open>["Lucid", 42]\<close> is not an array of strings. Only its first element
  is tested, and with it the generator goes on and returns a record.
\<close>

theorem seed_payload_with_a_number_is_accepted:
  "hf ai_env
   \<and> random_word_api ai_env = FetchResponse True (Some (JArr [JStr (js ''Lucid''), JNum 42]))
   \<and> \<not> list_all is_str [JStr (js ''Lucid''), JNum 42]
   \<and> fst (HuggingFaceWordGenerator_generateWord ai_env (js ''2025-06-15'') empty_state)
       = Inr (Some lucid_word)"
  by (simp add: ai_env_fields generateWord_lucid[OF ai_env_fields(1,2,3,4,5)])

section \<open>The pipeline: generation and persistence\<close>

lemma generateWordWithSmartBank_ai:
  assumes "hf env"
      and "fst (HuggingFaceWordGenerator_generateWord env d st) = Inr (Some aiWord)"
      and "truthy (word aiWord)" "length_gt3 (word aiWord)"
  shows "generateWordWithSmartBank env d st
           = (Inr (with_date_source aiWord d ''ai''), snd (HuggingFaceWordGenerator_generateWord env d st))"
  using assms
  by (cases "HuggingFaceWordGenerator_generateWord env d st")
     (simp add: generateWordWithSmartBank_def HuggingFaceWordGenerator_isAvailable_def)

lemma generateWordWithSmartBank_curated:
  assumes "\<not> (hf env \<and> (\<exists>aiWord. fst (HuggingFaceWordGenerator_generateWord env d st) = Inr (Some aiWord)
                              \<and> truthy (word aiWord) \<and> length_gt3 (word aiWord)))"
  shows "generateWordWithSmartBank env d st
           = ((case SmartWordBank_getWordForDate (words env) d of
                 Inl e \<Rightarrow> Inl e
               | Inr smartWord \<Rightarrow> Inr (with_date_source smartWord d ''curated'')),
              if hf env then snd (HuggingFaceWordGenerator_generateWord env d st) else st)"
  using assms
  by (cases "HuggingFaceWordGenerator_generateWord env d st")
     (auto simp: generateWordWithSmartBank_def HuggingFaceWordGenerator_isAvailable_def
           split: sum.splits option.splits)

lemma generateWordWithSmartBank_calls:
  "\<exists>es. snd (generateWordWithSmartBank env d st) = st \<lparr> calls := calls st @ es \<rparr>
        \<and> (es = [] \<or> es = [ev_seed] \<or> (\<exists>w. es = [ev_seed, ev_chat w]))
        \<and> (\<not> hf env \<longrightarrow> es = [])"
proof -
  obtain r es where g: "HuggingFaceWordGenerator_generateWord env d st = (Inr r, st \<lparr> calls := calls st @ es \<rparr>)"
    "es = [] \<or> es = [ev_seed] \<or> (\<exists>w. es = [ev_seed, ev_chat w])" "\<not> hf env \<longrightarrow> r = None \<and> es = []"
    using generateWord_shape by blast
  have "snd (generateWordWithSmartBank env d st) = (if hf env then st \<lparr> calls := calls st @ es \<rparr> else st)"
    using g(1)
    by (auto simp: generateWordWithSmartBank_def HuggingFaceWordGenerator_isAvailable_def
             split: sum.splits option.splits)
  then have "snd (generateWordWithSmartBank env d st) = st \<lparr> calls := calls st @ es \<rparr>"
    using g(3) by (cases "hf env") simp_all
  with g(2,3) show ?thesis by blast
qed

lemma GET_absent:
  assumes "valid_date d" "supabase env" "db_fault env op_count = NoFault"
      and "db_fault env op_select = NoFault \<longrightarrow> daily_words st (JStr d) = None"
  shows "GET env d st =
     (let st2 = st \<lparr> calls := calls st @ [ev_count, ev_select d] \<rparr>;
          g = generateWordWithSmartBank env d st2;
          newWordData = (case fst g of
                           Inr w \<Rightarrow> w
                         | Inl error \<Rightarrow> (FallbackWordsSystem_getWordByDate (fallbackWords env) d)
                                           \<lparr> source := JStr (js ''generation_error'') \<rparr>)
      in if db_fault env op_upsert = NoFault
         then (Inr (Json_word (stored_row env newWordData)),
               (log_call (ev_upsert newWordData) (snd g))
                 \<lparr> daily_words := (daily_words (snd g))(date newWordData \<mapsto> stored_row env newWordData) \<rparr>)
         else (Inr (Json_word newWordData), log_call (ev_upsert newWordData) (snd g)))"
proof -
  have q: "WordsDatabase_getWordByDate env d (log_call ev_count st)
             = (Inr None, st \<lparr> calls := calls st @ [ev_count, ev_select d] \<rparr>)"
    using assms by (auto simp: getWordByDate_eq log_call_def)
  show ?thesis
    unfolding GET_def GET_try_def
    using assms(1,2,3)
    by (cases "generateWordWithSmartBank env d (st \<lparr> calls := calls st @ [ev_count, ev_select d] \<rparr>)")
       (simp add: checkConnection_eq q saveWord_eq try_catch_def Let_def)
qed

lemma candidate_source:
  "source (case fst (generateWordWithSmartBank env d st) of
             Inr w \<Rightarrow> w
           | Inl error \<Rightarrow> (FallbackWordsSystem_getWordByDate (fallbackWords env) d)
                             \<lparr> source := JStr (js ''generation_error'') \<rparr>)
     \<in> {JStr (js ''ai''), JStr (js ''curated''), JStr (js ''generation_error'')}"
proof (cases "hf env \<and> (\<exists>aiWord. fst (HuggingFaceWordGenerator_generateWord env d st) = Inr (Some aiWord)
                              \<and> truthy (word aiWord) \<and> length_gt3 (word aiWord))")
  case True
  then obtain aiWord where "hf env" "fst (HuggingFaceWordGenerator_generateWord env d st) = Inr (Some aiWord)"
     "truthy (word aiWord)" "length_gt3 (word aiWord)" by blast
  from generateWordWithSmartBank_ai[OF this] show ?thesis by (simp add: with_date_source_def)
next
  case False
  from generateWordWithSmartBank_curated[OF this] show ?thesis
    by (simp add: with_date_source_def split: sum.splits)
qed

text \<open>
  C5. For a valid date, a connected store and no row found for the date: when the upsert
  does not succeed (the store answers with an error, or the request is rejected, both of
  which \<open>saveWord\<close> turns into \<open>null\<close>), the route answers with the candidate itself, the
  record that generation or selection produced, with the source it was given there
  (\<open>ai\<close>, \<open>curated\<close> or \<open>generation_error\<close>); the table is unchanged.
\<close>

theorem failed_save_returns_candidate:
  assumes "valid_date date_s"
      and "supabase env" and "db_fault env op_count = NoFault"
      and "db_fault env op_select = NoFault \<longrightarrow> daily_words st (JStr date_s) = None"
      and "db_fault env op_upsert \<noteq> NoFault"
  shows "(\<forall>w st'. fst (WordsDatabase_saveWord env w st') = Inr None)
       \<and> fst (GET env date_s st)
           = Inr (Json_word
               (case fst (generateWordWithSmartBank env date_s
                            (st \<lparr> calls := calls st @ [ev_count, ev_select date_s] \<rparr>)) of
                  Inr w \<Rightarrow> w
                | Inl error \<Rightarrow> (FallbackWordsSystem_getWordByDate (fallbackWords env) date_s)
                                  \<lparr> source := JStr (js ''generation_error'') \<rparr>))
       \<and> (\<exists>r. fst (GET env date_s st) = Inr (Json_word r)
              \<and> source r \<in> {JStr (js ''ai''), JStr (js ''curated''), JStr (js ''generation_error'')})
       \<and> daily_words (snd (GET env date_s st)) = daily_words st"
proof -
  have s: "\<forall>w st'. fst (WordsDatabase_saveWord env w st') = Inr None"
    using assms(5) by (simp add: saveWord_eq)
  obtain es where es: "snd (generateWordWithSmartBank env date_s
                            (st \<lparr> calls := calls st @ [ev_count, ev_select date_s] \<rparr>))
       = (st \<lparr> calls := calls st @ [ev_count, ev_select date_s] \<rparr>)
           \<lparr> calls := calls (st \<lparr> calls := calls st @ [ev_count, ev_select date_s] \<rparr>) @ es \<rparr>"
    using generateWordWithSmartBank_calls by blast
  have g: "fst (GET env date_s st)
           = Inr (Json_word
               (case fst (generateWordWithSmartBank env date_s
                            (st \<lparr> calls := calls st @ [ev_count, ev_select date_s] \<rparr>)) of
                  Inr w \<Rightarrow> w
                | Inl error \<Rightarrow> (FallbackWordsSystem_getWordByDate (fallbackWords env) date_s)
                                  \<lparr> source := JStr (js ''generation_error'') \<rparr>))"
    using assms(5) by (simp add: GET_absent[OF assms(1-4)] Let_def)
  have t: "daily_words (snd (GET env date_s st)) = daily_words st"
    using assms(5) by (simp add: GET_absent[OF assms(1-4)] Let_def log_call_def es)
  show ?thesis using s g t candidate_source[of env date_s] by simp
qed



lemma length_gt3_lucid: "truthy (word lucid_word)" "length_gt3 (word lucid_word)"
  by (simp_all add: lucid_word_def length_gt3_def js_def)

theorem failed_save_returns_candidate_witness:
  "valid_date (js ''2025-06-15'')
   \<and> db_fault (ai_env \<lparr> db_fault := (\<lambda>op. if op = op_upsert then PgError (js ''42501'') else NoFault) \<rparr>)
        op_upsert \<noteq> NoFault
   \<and> db_fault (ai_env \<lparr> db_fault := (\<lambda>op. if op = op_upsert then Throws else NoFault) \<rparr>)
        op_upsert \<noteq> NoFault
   \<and> fst (GET (ai_env \<lparr> db_fault := (\<lambda>op. if op = op_upsert then PgError (js ''42501'') else NoFault) \<rparr>)
            (js ''2025-06-15'') empty_state)
       = Inr (Json_word (with_date_source lucid_word (js ''2025-06-15'') ''ai''))
   \<and> fst (GET (ai_env \<lparr> db_fault := (\<lambda>op. if op = op_upsert then Throws else NoFault) \<rparr>)
            (js ''2025-06-15'') empty_state)
       = Inr (Json_word (with_date_source lucid_word (js ''2025-06-15'') ''ai''))"
proof -
  let ?e1 = "ai_env \<lparr> db_fault := (\<lambda>op. if op = op_upsert then PgError (js ''42501'') else NoFault) \<rparr>"
  let ?e2 = "ai_env \<lparr> db_fault := (\<lambda>op. if op = op_upsert then Throws else NoFault) \<rparr>"
  let ?d = "js ''2025-06-15''"
  have g: "fst (generateWordWithSmartBank e ?d st) = Inr (with_date_source lucid_word ?d ''ai'')"
    if "e = ?e1 \<or> e = ?e2" for e st
  proof -
    have "fst (HuggingFaceWordGenerator_generateWord e ?d st) = Inr (Some lucid_word)"
      using that by (intro generateWord_lucid) (auto simp: ai_env_fields)
    moreover have "hf e" using that by (auto simp: ai_env_fields)
    ultimately show ?thesis
      using generateWordWithSmartBank_ai[of e ?d st lucid_word] length_gt3_lucid by simp
  qed
  have h1: "supabase ?e1" "db_fault ?e1 op_count = NoFault"
     "db_fault ?e1 op_select = NoFault \<longrightarrow> daily_words empty_state (JStr ?d) = None"
     "db_fault ?e1 op_upsert \<noteq> NoFault"
    by (simp_all add: ai_env_fields empty_state_def)
  have h2: "supabase ?e2" "db_fault ?e2 op_count = NoFault"
     "db_fault ?e2 op_select = NoFault \<longrightarrow> daily_words empty_state (JStr ?d) = None"
     "db_fault ?e2 op_upsert \<noteq> NoFault"
    by (simp_all add: ai_env_fields empty_state_def)
  from failed_save_returns_candidate[OF valid_date_2025_06_15 h1]
       failed_save_returns_candidate[OF valid_date_2025_06_15 h2]
  show ?thesis
    using valid_date_2025_06_15 h1(4) h2(4) by (simp add: g)
qed



lemma example_env_fields:
  "supabase example_env" "\<not> hf example_env" "db_fault example_env = (\<lambda>op. NoFault)"
  "words example_env = numbered_bank 30" "fallbackWords example_env = numbered_fallback 12"
  "toLowerCase example_env = ascii_lower" "search_rows example_env = (\<lambda>query. Some [])"
  "recent_rows example_env = (\<lambda>limit. Some [])"
  by (simp_all add: example_env_def)






section \<open>The top-level handler\<close>


text \<open>
  In this model the body of the \<open>try\<close> itself always returns: the connectivity check,
  the lookup, the generation and the save each catch their own exceptions. The handler is
  reached only by an exception from outside these steps.
\<close>

lemma GET_try_returns: "\<exists>r. fst (GET_try env d st) = Inr r"
  unfolding GET_try_def
  by (auto simp: checkConnection_eq getWordByDate_eq saveWord_eq Let_def
        split: prod.splits option.splits)



text \<open>
  The first version of the route has the same shape. Its handler selects with
  \<open>FallbackWordsSystem.getWordByDate\<close>, which does not throw, so its hardcoded record (tagged
  \<open>emergency\<close> there) is never reached.
\<close>

lemma GET_v1_never_propagates:
  "fst (GET_v1 env d st) = try_catch (fst (GET_v1_try env d st)) (GET_v1_catch env d)"
  "try_catch (Inl e) (GET_v1_catch env d)
     = Inr (Json_word ((FallbackWordsSystem_getWordByDate (fallbackWords env) d)
                         \<lparr> source := JStr (js ''emergency'') \<rparr>))"
  "\<exists>r. fst (GET_v1 env d st) = Inr r"
proof -
  show 1: "fst (GET_v1 env d st) = try_catch (fst (GET_v1_try env d st)) (GET_v1_catch env d)"
    by (simp add: GET_v1_def split: prod.splits)
  show "try_catch (Inl e) (GET_v1_catch env d)
     = Inr (Json_word ((FallbackWordsSystem_getWordByDate (fallbackWords env) d)
                         \<lparr> source := JStr (js ''emergency'') \<rparr>))"
    by (simp add: try_catch_def GET_v1_catch_def)
  show "\<exists>r. fst (GET_v1 env d st) = Inr r"
    unfolding 1 by (cases "fst (GET_v1_try env d st)") (auto simp: try_catch_def GET_v1_catch_def)
qed

section \<open>The history route\<close>

lemma getRecentWords_eq:
  "WordsDatabase_getRecentWords env limit st =
     (Inr (if supabase env \<and> db_fault env op_recent = NoFault
           then (case recent_rows env limit of None \<Rightarrow> [] | Some rows \<Rightarrow> rows) else []),
      if supabase env then log_call (ev_recent limit) st else st)"
  by (simp add: WordsDatabase_getRecentWords_def await_store_def try_catch_def
           split: fault.splits option.splits)

lemma searchWords_eq:
  "WordsDatabase_searchWords env query st =
     (Inr (if supabase env \<and> db_fault env op_search = NoFault
           then (case search_rows env query of None \<Rightarrow> [] | Some rows \<Rightarrow> rows) else []),
      if supabase env then log_call (ev_search query) st else st)"
  by (simp add: WordsDatabase_searchWords_def await_store_def try_catch_def
           split: fault.splits option.splits)

lemma history_days_default: "history_days None = Some 30" "history_days (Some []) = Some 30"
proof -
  have "list_all is_digit (js ''30'')" "js ''30'' \<noteq> []" "decimal (js ''30'') = 30"
    by (simp_all add: js_def is_digit_def decimal_def)
  from parseInt_all_digits[OF this(1,2)] this(3)
  show "history_days None = Some 30" "history_days (Some []) = Some 30"
    by (simp_all add: history_days_def Math_min_def)
qed

lemma history_days_parse:
  assumes "s \<noteq> []"
  shows "history_days (Some s) = (case parseInt s of None \<Rightarrow> None | Some n \<Rightarrow> Some (min n 60))"
  using assms by (simp add: history_days_def Math_min_def split: option.splits)

lemma history_days_le_60:
  assumes "history_days p = Some n"
  shows "n \<le> 60"
  using assms by (auto simp: history_days_def Math_min_def split: option.splits)

lemma GET_history_words: "\<exists>ws. fst (GET_history env p st) = Inr (Json_words ws)"
  by (simp add: GET_history_def GET_history_try_def checkConnection_eq getRecentWords_eq
        try_catch_def Let_def)

text \<open>
  C9 (as amended). The \<open>days\<close> parameter of the history route defaults to 30 when it is
  absent or empty and is never more than 60: it is the minimum of \<open>parseInt\<close> of the
  parameter and 60, with no lower bound, and \<open>NaN\<close> when the parameter has no leading
  number. For every request the route answers with an array of word records.
\<close>

theorem history_days_capped_at_60:
  "history_days None = Some 30 \<and> history_days (Some []) = Some 30
   \<and> (\<forall>n. history_days days_param = Some n \<longrightarrow> n \<le> 60)
   \<and> (\<forall>s. s \<noteq> [] \<longrightarrow>
         history_days (Some s) = (case parseInt s of None \<Rightarrow> None | Some n \<Rightarrow> Some (min n 60)))
   \<and> (\<exists>ws. fst (GET_history env days_param st) = Inr (Json_words ws))"
  using history_days_default history_days_le_60 history_days_parse GET_history_words
  by blast

lemma parseInt_examples:
  "parseInt (js ''100'') = Some 100" "parseInt (js ''7'') = Some 7" "parseInt (js ''-5'') = Some (- 5)"
  "parseInt (js ''abc'') = None"
  by (simp_all add: parseInt_def digits_value_def dec_val_def is_ws_def js_def Let_def)

theorem history_days_capped_at_60_witness:
  "history_days (Some (js ''100'')) = Some 60 \<and> (60::int) \<le> 60
   \<and> js ''7'' \<noteq> [] \<and> history_days (Some (js ''7'')) = Some 7
   \<and> history_days (Some (js ''abc'')) = None
   \<and> (\<exists>ws. fst (GET_history example_env (Some (js ''100'')) empty_state) = Inr (Json_words ws))"
  using history_days_capped_at_60[of "Some (js ''100'')" example_env empty_state]
  by (simp add: parseInt_examples js_nonempty)

text \<open>
  For \<open>days=-5\<close> the value is \<open>-5\<close>, below the range from 0 to 60; with a disconnected
  store the route then answers with \<open>fallbackWords.slice(0, -5)\<close>, the first 7 of the 12
  fallback entries.
\<close>

theorem negative_days_are_not_clamped:
  "history_days (Some (js ''-5'')) = Some (- 5)
   \<and> fst (GET_history (example_env \<lparr> supabase := False \<rparr>) (Some (js ''-5'')) empty_state)
       = Inr (Json_words (take 7 (numbered_fallback 12)))"
proof -
  have d: "history_days (Some (js ''-5'')) = Some (- 5)"
    by (simp add: history_days_parse js_nonempty parseInt_examples)
  have l: "length (numbered_fallback 12) = 12" by (simp add: numbered_fallback_def)
  show ?thesis
    by (simp add: d GET_history_def GET_history_try_def checkConnection_eq try_catch_def Let_def
          example_env_fields FallbackWordsSystem_getRecentWords_def Math_min_def slice0_def l)
qed


section \<open>The search route\<close>

lemma starts_with_prefix: "starts_with q s \<longleftrightarrow> prefix q s"
proof
  assume "starts_with q s"
  then have "take (length q) s = q" by (simp add: starts_with_def)
  then show "prefix q s" by (metis take_is_prefix)
next
  assume "prefix q s"
  then obtain r where "s = q @ r" by (auto simp: prefix_def)
  then show "starts_with q s" by (simp add: starts_with_def)
qed

lemma includes_str_sublist: "includes_str s q \<longleftrightarrow> sublist q s"
  by (induction s) (simp_all add: sublist_Cons_right starts_with_prefix)

lemma word_matches_strings:
  assumes "is_str (word w)" "is_str (definition_w w)" "is_str (translation w)"
  shows "word_matches lower (lower q) w = Inr (matches_ci lower q w)"
proof -
  obtain a b c where f: "word w = JStr a" "definition_w w = JStr b" "translation w = JStr c"
    using assms by (metis is_str.elims(2))
  show ?thesis
    by (auto simp: word_matches_def field_includes_def matches_ci_def f includes_str_sublist
          split: bool.splits)
qed

lemma filter_exn_total:
  assumes "\<forall>x \<in> set xs. p x = Inr (P x)"
  shows "filter_exn p xs = Inr (filter P xs)"
  using assms by (induction xs) simp_all

lemma searchWords_strings:
  assumes "string_fields catalog"
  shows "FallbackWordsSystem_searchWords lower catalog q = Inr (filter (matches_ci lower q) catalog)"
  unfolding FallbackWordsSystem_searchWords_def Let_def
  using assms
  by (intro filter_exn_total) (auto simp: string_fields_def list_all_iff word_matches_strings)

text \<open>
  C10 (as amended). For every query whose trimmed length is at least 2, when the store is
  connected and the database search gives no row, the search route answers with the
  entries of the fallback catalog in which the trimmed query, lower-cased, is a contiguous
  part of the lower-cased \<open>word\<close>, \<open>definition\<close> or \<open>translation\<close>, in catalog order. These
  entries come from the static catalog, whatever the table holds.
\<close>

theorem search_falls_back_to_catalog:
  assumes "2 \<le> length (trim query)"
      and "supabase env" and "db_fault env op_count = NoFault"
      and "fst (WordsDatabase_searchWords env (trim query) (log_call ev_count st)) = Inr []"
      and "string_fields (fallbackWords env)"
  shows "fst (GET_search env (Some query) st)
           = Inr (Json_words (filter (matches_ci (toLowerCase env) (trim query)) (fallbackWords env)))"
proof -
  have q: "query \<noteq> []" using assms(1) by (auto simp: trim_def)
  obtain st2 where s: "WordsDatabase_searchWords env (trim query) (log_call ev_count st) = (Inr [], st2)"
    using assms(4) by (cases "WordsDatabase_searchWords env (trim query) (log_call ev_count st)") simp
  show ?thesis
    using assms(1,2,3) q
    by (simp add: GET_search_def GET_search_try_def checkConnection_eq s fallback_search_def
          searchWords_strings[OF assms(5)] try_catch_def)
qed

lemma numbered_fallback_strings: "string_fields (numbered_fallback n)"
  by (simp add: string_fields_def numbered_fallback_def list_all_iff with_date_source_def entry_def)

lemma trim_examples: "trim (js ''word1 '') = js ''word1''" "trim (js ''a '') = js ''a''"
  by (simp_all add: trim_def js_def is_ws_def)

lemma length_js: "length (js s) = length s"
  by (simp add: js_def)

theorem search_falls_back_to_catalog_witness:
  "2 \<le> length (trim (js ''word1 '')) \<and> supabase example_env \<and> db_fault example_env op_count = NoFault
   \<and> fst (WordsDatabase_searchWords example_env (trim (js ''word1 '')) (log_call ev_count empty_state)) = Inr []
   \<and> string_fields (fallbackWords example_env)
   \<and> daily_words empty_state = (\<lambda>d. None)
   \<and> fst (GET_search example_env (Some (js ''word1 '')) empty_state)
       = Inr (Json_words (filter (matches_ci ascii_lower (js ''word1'')) (numbered_fallback 12)))
   \<and> numbered_fallback 12 ! 1 \<in> set (filter (matches_ci ascii_lower (js ''word1'')) (numbered_fallback 12))"
proof -
  have w1: "str_of (word (numbered_fallback 12 ! 1)) = js ''word1''"
    by (simp add: numbered_fallback_def with_date_source_def entry_def show_nat.simps js_def)
  have m: "numbered_fallback 12 ! 1 \<in> set (filter (matches_ci ascii_lower (js ''word1'')) (numbered_fallback 12))"
  proof -
    have "numbered_fallback 12 ! 1 \<in> set (numbered_fallback 12)"
      by (rule nth_mem) (simp add: numbered_fallback_def)
    moreover have "matches_ci ascii_lower (js ''word1'') (numbered_fallback 12 ! 1)"
      unfolding matches_ci_def w1 by simp
    ultimately show ?thesis by simp
  qed
  have h: "2 \<le> length (trim (js ''word1 ''))" "supabase example_env" "db_fault example_env op_count = NoFault"
    "fst (WordsDatabase_searchWords example_env (trim (js ''word1 '')) (log_call ev_count empty_state)) = Inr []"
    "string_fields (fallbackWords example_env)"
    by (simp_all add: trim_examples example_env_fields searchWords_eq numbered_fallback_strings length_js)
  from search_falls_back_to_catalog[OF h] h m
  show ?thesis by (simp add: example_env_fields trim_examples empty_state_def)
qed

text \<open>
  The query \<open>"a "\<close> has length 2, but its trimmed length is 1: the route answers with
  status 400 and does not search.
\<close>

theorem padded_query_is_rejected:
  "length (js ''a '') = 2 \<and> supabase example_env \<and> db_fault example_env op_count = NoFault
   \<and> fst (WordsDatabase_searchWords example_env (js ''a '') (log_call ev_count empty_state)) = Inr []
   \<and> fst (GET_search example_env (Some (js ''a '')) empty_state)
       = Inr (Json_error (js ''Query must be at least 2 characters long'') 400)"
  by (simp add: GET_search_def GET_search_try_def trim_examples example_env_fields searchWords_eq
        try_catch_def length_js js_nonempty)

end
